theory Spec2Isabelle
  imports Main "HOL-Library.Word"
begin

unbundle bit_operations_syntax

section \<open>Padding codec\<close>

text \<open>
  The send path (\<^verbatim>\<open>OutgoingMessage.getPlaintext\<close>) pads the encoded Content message,
  the receive path (\<^verbatim>\<open>MessageReceiver.unpad\<close>) strips the padding again. Buffers are
  lists of bytes; JavaScript's \<^verbatim>\<open>undefined\<close> result of \<^verbatim>\<open>unpad\<close> is \<open>None\<close>.
\<close>

type_synonym byte = "8 word"

text \<open>
  The body of an HTTP error reply of the service (409: extra and missing devices, 410:
  stale devices), and the errors the engine raises or passes on.
\<close>

record response =
  extraDevices :: "nat list"
  missingDevices :: "nat list"
  staleDevices :: "nat list"

datatype error =
    InvalidPadding
  | RangeError
  | UnknownFlags
  | TypeError
  | HTTPError nat response
  | IdentityKeyChanged
  | UnknownIdentityKey
  | IncomingIdentityKeyError string nat
  | UnregisteredUserError string error
  | SendMessageNetworkError string error
  | OutgoingMessageError string "error option"
  | OutgoingIdentityKeyError string
  | OtherError string

text \<open>\<^verbatim>\<open>getPaddedMessageLength(messageLength)\<close>, outgoing_message.js lines 161-170.\<close>

definition getPaddedMessageLength :: "nat \<Rightarrow> nat" where
  "getPaddedMessageLength messageLength =
     (let messageLengthWithTerminator = messageLength + 1;
          messagePartCount = messageLengthWithTerminator div 160;
          messagePartCount' =
            (if messageLengthWithTerminator mod 160 \<noteq> 0 then messagePartCount + 1
             else messagePartCount)
      in messagePartCount' * 160)"

text \<open>
  The typed-array operations \<^verbatim>\<open>getPlaintext\<close> uses: \<^verbatim>\<open>new Uint8Array(n)\<close> is zero
  filled, \<^verbatim>\<open>target.set(src)\<close> copies \<^verbatim>\<open>src\<close> to offset 0 and raises a RangeError when
  \<^verbatim>\<open>src\<close> does not fit, and an indexed store outside the array is ignored.
\<close>

definition uint8array_new :: "nat \<Rightarrow> byte list" where
  "uint8array_new n = replicate n 0"

definition uint8array_set :: "byte list \<Rightarrow> byte list \<Rightarrow> error + byte list" where
  "uint8array_set target src =
     (if length src \<le> length target then Inr (src @ drop (length src) target)
      else Inl RangeError)"

definition uint8array_store :: "byte list \<Rightarrow> nat \<Rightarrow> byte \<Rightarrow> byte list" where
  "uint8array_store a i v = (if i < length a then a[i := v] else a)"

text \<open>
  The part of an \<^verbatim>\<open>OutgoingMessage\<close> object that \<^verbatim>\<open>getPlaintext\<close> reads and writes:
  the Content message and the cached \<^verbatim>\<open>this.plaintext\<close>. The protobuf encoder
  \<^verbatim>\<open>Content.encode(m).finish()\<close> is a parameter \<open>enc\<close>.
\<close>

record 'm outgoing =
  message :: 'm
  plaintext :: "byte list option"

definition OutgoingMessage_new :: "'m \<Rightarrow> 'm outgoing" where
  "OutgoingMessage_new m = \<lparr>message = m, plaintext = None\<rparr>"

text \<open>\<^verbatim>\<open>getPlaintext()\<close>, outgoing_message.js lines 172-182.\<close>

definition getPlaintext ::
  "('m \<Rightarrow> byte list) \<Rightarrow> 'm outgoing \<Rightarrow> error + (byte list \<times> 'm outgoing)" where
  "getPlaintext enc om =
     (case plaintext om of
        Some p \<Rightarrow> Inr (p, om)
      | None \<Rightarrow>
          (let messageBuffer = enc (message om);
               fresh = uint8array_new (getPaddedMessageLength (length messageBuffer + 1) - 1)
           in case uint8array_set fresh messageBuffer of
                Inl e \<Rightarrow> Inl e
              | Inr copied \<Rightarrow>
                  (let p = uint8array_store copied (length messageBuffer) 0x80
                   in Inr (p, om\<lparr>plaintext := Some p\<rparr>))))"

text \<open>
  \<^verbatim>\<open>unpad(paddedData)\<close>, message_receiver.js lines 619-635. The loop index runs from
  \<^verbatim>\<open>length - 1\<close> down to 0; \<open>unpad_loop xs n\<close> is the loop with \<^verbatim>\<open>i = n - 1\<close>, and
  \<open>n = 0\<close> is the exit with \<^verbatim>\<open>plaintext\<close> still undefined.
\<close>

fun unpad_loop :: "byte list \<Rightarrow> nat \<Rightarrow> error + byte list option" where
  "unpad_loop paddedPlaintext 0 = Inr None"
| "unpad_loop paddedPlaintext (Suc i) =
     (if paddedPlaintext ! i = 0x80 then Inr (Some (take i paddedPlaintext))
      else if paddedPlaintext ! i \<noteq> 0x00 then Inl InvalidPadding
      else unpad_loop paddedPlaintext i)"

definition unpad :: "byte list \<Rightarrow> error + byte list option" where
  "unpad paddedData = unpad_loop paddedData (length paddedData)"

section \<open>DataMessage flags (processDecrypted)\<close>

text \<open>
  The fields of a decoded \<^verbatim>\<open>DataMessage\<close> that \<^verbatim>\<open>processDecrypted\<close> and
  \<^verbatim>\<open>validateRetryContentMessage\<close> read. \<^verbatim>\<open>flags\<close> and \<^verbatim>\<open>expireTimer\<close> are uint32
  fields that may be absent (\<^verbatim>\<open>null\<close>); attachments and the group context are kept
  opaque.
\<close>

record data_message =
  body :: "string option"
  attachments :: "nat list"
  group :: "string option"
  flags :: "32 word option"
  expireTimer :: "32 word option"

text \<open>
  The enum \<^verbatim>\<open>DataMessage.Flags\<close> comes from the protobuf schema, which is not part of
  the two source files: it is a parameter of the model. \<open>SignalService_Flags\<close> holds the
  values of the Signal service schema.
\<close>

record Flags =
  END_SESSION :: "32 word"
  EXPIRATION_TIMER_UPDATE :: "32 word"
  PROFILE_KEY_UPDATE :: "32 word"

definition SignalService_Flags :: Flags where
  "SignalService_Flags =
     \<lparr>END_SESSION = 1, EXPIRATION_TIMER_UPDATE = 2, PROFILE_KEY_UPDATE = 4\<rparr>"

text \<open>
  \<^verbatim>\<open>processDecrypted\<close>, message_receiver.js lines 1224-1244: the defaults and the flag
  chain. \<open>Resolved\<close> is the early \<^verbatim>\<open>return Promise.resolve(decrypted)\<close> of the
  END_SESSION branch, \<open>Continue\<close> falls through to the group and attachment handling.
\<close>

datatype 'a flow = Resolved 'a | Continue 'a

text \<open>The value read from an optional uint32 field once its default 0 is in place.\<close>

definition uint32_or_zero :: "32 word option \<Rightarrow> 32 word" where
  "uint32_or_zero x = (case x of None \<Rightarrow> 0 | Some v \<Rightarrow> v)"

definition processDecrypted_flags :: "Flags \<Rightarrow> data_message \<Rightarrow> error + data_message flow" where
  "processDecrypted_flags FLAGS decrypted0 =
     (let decrypted1 =
            (if flags decrypted0 = None then decrypted0\<lparr>flags := Some 0\<rparr> else decrypted0);
          decrypted =
            (if expireTimer decrypted1 = None then decrypted1\<lparr>expireTimer := Some 0\<rparr>
             else decrypted1);
          f = uint32_or_zero (flags decrypted)
      in if f AND END_SESSION FLAGS \<noteq> 0
         then Inr (Resolved (decrypted\<lparr>body := None, attachments := [], group := None\<rparr>))
         else if f AND EXPIRATION_TIMER_UPDATE FLAGS \<noteq> 0
         then Inr (Continue (decrypted\<lparr>body := None, attachments := []\<rparr>))
         else if f AND PROFILE_KEY_UPDATE FLAGS \<noteq> 0
         then Inr (Continue (decrypted\<lparr>body := None, attachments := []\<rparr>))
         else if f \<noteq> 0 then Inl UnknownFlags
         else Inr (Continue decrypted))"

text \<open>
  \<^verbatim>\<open>processDecrypted\<close> as a whole: the flag stage, then the group reconciliation and
  the attachment downloads of lines 1246-1359, which talk to the Store and the server and
  are the parameter \<open>rest\<close>.
\<close>

definition processDecrypted ::
  "Flags \<Rightarrow> (data_message \<Rightarrow> error + data_message) \<Rightarrow> data_message \<Rightarrow> error + data_message" where
  "processDecrypted FLAGS rest decrypted =
     (case processDecrypted_flags FLAGS decrypted of
        Inl e \<Rightarrow> Inl e
      | Inr (Resolved d) \<Rightarrow> Inr d
      | Inr (Continue d) \<Rightarrow> rest d)"

section \<open>Retry negotiator (tryMessageAgain)\<close>

text \<open>
  A decoded \<^verbatim>\<open>Content\<close>: each variant is present or \<^verbatim>\<open>null\<close>. Only the data message
  is looked into; the other variants are kept as their encoded bytes.
\<close>

record content =
  syncMessage :: "byte list option"
  dataMessage :: "data_message option"
  callMessage :: "byte list option"
  nullMessage :: "byte list option"
  receiptMessage :: "byte list option"

text \<open>JavaScript truthiness of the fields \<^verbatim>\<open>validateRetryContentMessage\<close> tests.\<close>

definition truthy_string :: "string option \<Rightarrow> bool" where
  "truthy_string s = (case s of None \<Rightarrow> False | Some v \<Rightarrow> v \<noteq> [])"

definition truthy_uint32 :: "32 word option \<Rightarrow> bool" where
  "truthy_uint32 n = (case n of None \<Rightarrow> False | Some v \<Rightarrow> v \<noteq> 0)"

text \<open>\<^verbatim>\<open>validateRetryContentMessage(content)\<close>, message_receiver.js lines 1102-1132.\<close>

definition validateRetryContentMessage :: "content \<Rightarrow> bool" where
  "validateRetryContentMessage c =
     (if syncMessage c \<noteq> None then False
      else
        let count0 = (0::nat);
            count1 = count0 + (if dataMessage c \<noteq> None then 1 else 0);
            count2 = count1 + (if callMessage c \<noteq> None then 1 else 0);
            count = count2 + (if nullMessage c \<noteq> None then 1 else 0)
        in if count \<noteq> 1 then False
           else
             (case dataMessage c of
                None \<Rightarrow> True
              | Some d \<Rightarrow>
                  if length (attachments d) = 0 \<and> \<not> truthy_string (body d)
                     \<and> \<not> truthy_uint32 (expireTimer d) \<and> \<not> truthy_uint32 (flags d)
                     \<and> group d = None
                  then False else True))"

text \<open>
  The validation as the specification words it: no sync message, exactly one of
  dataMessage, callMessage and nullMessage set, and a data message carries at least one
  of attachments, body, expireTimer, flags, group.
\<close>

definition retry_content_valid_spec :: "content \<Rightarrow> bool" where
  "retry_content_valid_spec c =
     (syncMessage c = None
      \<and> ((dataMessage c \<noteq> None \<and> callMessage c = None \<and> nullMessage c = None)
         \<or> (dataMessage c = None \<and> callMessage c \<noteq> None \<and> nullMessage c = None)
         \<or> (dataMessage c = None \<and> callMessage c = None \<and> nullMessage c \<noteq> None))
      \<and> (case dataMessage c of
           None \<Rightarrow> True
         | Some d \<Rightarrow> attachments d \<noteq> [] \<or> truthy_string (body d) \<or> truthy_uint32 (expireTimer d)
                       \<or> truthy_uint32 (flags d) \<or> group d \<noteq> None))"

text \<open>
  \<^verbatim>\<open>decryptPreKeyWhisperMessage\<close>, message_receiver.js lines 714-732. The session
  cipher of the ratchet library is the parameter \<open>cipher\<close>; its rejection leaves the
  function before the \<^verbatim>\<open>try\<close>, and only an error of \<^verbatim>\<open>unpad\<close> reaches the handler.
\<close>

definition decryptPreKeyWhisperMessage ::
  "(byte list \<Rightarrow> error + byte list) \<Rightarrow> byte list \<Rightarrow> string \<Rightarrow> nat \<Rightarrow> error + byte list option" where
  "decryptPreKeyWhisperMessage cipher ciphertext name deviceId =
     (case cipher ciphertext of
        Inl e \<Rightarrow> Inl e
      | Inr padded \<Rightarrow>
          (case unpad padded of
             Inl e \<Rightarrow>
               (if e = UnknownIdentityKey then Inl (IncomingIdentityKeyError name deviceId)
                else Inl e)
           | Inr p \<Rightarrow> Inr p))"

text \<open>
  The message handed to \<^verbatim>\<open>tryMessageAgain\<close>, the envelope it builds, and the two ways
  the plaintext is dispatched: \<^verbatim>\<open>innerHandleLegacyMessage(envelope, plaintext)\<close> or
  \<^verbatim>\<open>innerHandleContentMessage(envelope, plaintext)\<close>.
\<close>

record retry_message =
  sent_at :: "nat option"
  received_at :: "nat option"

record retry_envelope =
  re_source :: string
  re_sourceDevice :: nat
  re_receivedAt :: nat
  re_timestamp :: nat

datatype dispatch =
    LegacyMessage retry_envelope "byte list option"
  | ContentMessage retry_envelope "byte list option"

text \<open>\<^verbatim>\<open>x || Date.now()\<close> on an optional number: absent and 0 are both falsy.\<close>

definition or_now :: "nat option \<Rightarrow> nat \<Rightarrow> nat" where
  "or_now x now = (case x of None \<Rightarrow> now | Some v \<Rightarrow> if v = 0 then now else v)"

text \<open>\<^verbatim>\<open>new Uint8Array(x)\<close> for a buffer or \<^verbatim>\<open>undefined\<close>: the latter gives length 0.\<close>

definition uint8array_of :: "byte list option \<Rightarrow> byte list" where
  "uint8array_of x = (case x of None \<Rightarrow> [] | Some b \<Rightarrow> b)"

definition startOfJune :: nat where
  "startOfJune = 1496300400000"

text \<open>
  \<^verbatim>\<open>tryMessageAgain(from, ciphertext, message)\<close>, message_receiver.js lines 1134-1198.
  \<open>now\<close> is the clock \<^verbatim>\<open>Date.now()\<close>, \<open>decodeContent\<close> is \<^verbatim>\<open>Content.decode\<close> (\<open>None\<close>
  when it throws), and the address parsed from \<^verbatim>\<open>from\<close> is given as name and device.
\<close>

definition tryMessageAgain ::
  "nat \<Rightarrow> (byte list \<Rightarrow> error + byte list) \<Rightarrow> (byte list \<Rightarrow> content option) \<Rightarrow>
   string \<Rightarrow> nat \<Rightarrow> byte list \<Rightarrow> retry_message \<Rightarrow> error + dispatch" where
  "tryMessageAgain now cipher decodeContent number device ciphertext msg =
     (let sentAt = or_now (sent_at msg) now;
          receivedAt = or_now (received_at msg) now
      in case decryptPreKeyWhisperMessage cipher ciphertext number device of
           Inl e \<Rightarrow> Inl e
         | Inr plaintext' \<Rightarrow>
             (let envelope = \<lparr>re_source = number, re_sourceDevice = device,
                              re_receivedAt = receivedAt, re_timestamp = sentAt\<rparr>
              in if sentAt < startOfJune then Inr (LegacyMessage envelope plaintext')
                 else
                   (case decodeContent (uint8array_of plaintext') of
                      None \<Rightarrow> Inr (LegacyMessage envelope plaintext')
                    | Some c \<Rightarrow>
                        if validateRetryContentMessage c
                        then Inr (ContentMessage envelope plaintext')
                        else Inr (LegacyMessage envelope plaintext'))))"

text \<open>
  For the examples below: a Content message in protobuf wire format (field 1, the data
  message, holding field 1, the body ''hi''), \<^verbatim>\<open>Content.decode\<close> on it (every other
  byte string is rejected), and a session cipher whose decryption is that message as
  \<^verbatim>\<open>getPlaintext\<close> pads it.
\<close>

definition sample_content_bytes :: "byte list" where
  "sample_content_bytes = [10, 4, 10, 2, 104, 105]"

definition sample_content :: content where
  "sample_content =
     \<lparr>syncMessage = None,
      dataMessage = Some \<lparr>body = Some ''hi'', attachments = [], group = None,
                          flags = None, expireTimer = None\<rparr>,
      callMessage = None, nullMessage = None, receiptMessage = None\<rparr>"

definition sample_decodeContent :: "byte list \<Rightarrow> content option" where
  "sample_decodeContent bytes = (if bytes = sample_content_bytes then Some sample_content else None)"

definition sample_cipher :: "byte list \<Rightarrow> error + byte list" where
  "sample_cipher ciphertext = Inr (sample_content_bytes @ 0x80 # replicate 152 0)"

section \<open>Utility worker and the conversion helpers\<close>

text \<open>
  The module state of the worker registry (\<^verbatim>\<open>_jobCounter\<close>, \<^verbatim>\<open>_jobs\<close>) and the messages
  posted to the worker. JavaScript values a helper can hand back: \<^verbatim>\<open>undefined\<close>, the
  pending promise of a worker job, an already resolved promise, bytes or a string.
\<close>

datatype jsarg = ArgString string | ArgBytes "byte list"

datatype jsval =
    Undefined
  | PendingJob nat
  | ResolvedPromise jsval
  | Bytes "byte list"
  | Str string

record worker =
  jobCounter :: nat
  jobs :: "(nat \<times> string) list"
  posted :: "(nat \<times> string \<times> jsarg list) list"

text \<open>\<^verbatim>\<open>_makeJob(fnName)\<close>, message_receiver.js lines 31-44.\<close>

definition makeJob :: "string \<Rightarrow> worker \<Rightarrow> nat \<times> worker" where
  "makeJob fnName w =
     (let w1 = w\<lparr>jobCounter := jobCounter w + 1\<rparr>;
          ident = jobCounter w1
      in (ident, w1\<lparr>jobs := jobs w1 @ [(ident, fnName)]\<rparr>))"

text \<open>
  \<^verbatim>\<open>callWorker(fnName, ...args)\<close>, lines 82-99: registers the job, posts it, and returns
  the promise of its reply.
\<close>

definition callWorker :: "string \<Rightarrow> jsarg list \<Rightarrow> worker \<Rightarrow> jsval \<times> worker" where
  "callWorker fnName args w =
     (let (jobId, w1) = makeJob fnName w
      in (PendingJob jobId, w1\<lparr>posted := posted w1 @ [(jobId, fnName, args)]\<rparr>))"

text \<open>
  The four helpers, lines 1363-1377. Each body is one expression statement: the promise
  is built and dropped, and the function ends without a \<^verbatim>\<open>return\<close>. The ByteBuffer
  conversions of the first two are the parameters \<open>toArrayBuffer\<close> and \<open>toBinary\<close>.
\<close>

definition stringToArrayBuffer :: "(string \<Rightarrow> byte list) \<Rightarrow> string \<Rightarrow> jsval" where
  "stringToArrayBuffer toArrayBuffer string =
     (let dropped = ResolvedPromise (Bytes (toArrayBuffer string)) in Undefined)"

definition arrayBufferToString :: "(byte list \<Rightarrow> string) \<Rightarrow> byte list \<Rightarrow> jsval" where
  "arrayBufferToString toBinary arrayBuffer =
     (let dropped = ResolvedPromise (Str (toBinary arrayBuffer)) in Undefined)"

definition stringToArrayBufferBase64 :: "string \<Rightarrow> worker \<Rightarrow> jsval \<times> worker" where
  "stringToArrayBufferBase64 string w =
     (let (dropped, w') = callWorker ''stringToArrayBufferBase64'' [ArgString string] w
      in (Undefined, w'))"

definition arrayBufferToStringBase64 :: "byte list \<Rightarrow> worker \<Rightarrow> jsval \<times> worker" where
  "arrayBufferToStringBase64 arrayBuffer w =
     (let (dropped, w') = callWorker ''arrayBufferToStringBase64'' [ArgBytes arrayBuffer] w
      in (Undefined, w'))"

section \<open>Envelope cache and inbound requests\<close>

text \<open>
  The fields of a decoded \<^verbatim>\<open>Envelope\<close> that the cache and the socket handler read, and
  an item of the unprocessed cache. The \<^verbatim>\<open>envelope\<close> and \<^verbatim>\<open>decrypted\<close> fields of an
  item hold a string (Base64 or binary) or a byte array; \<^verbatim>\<open>addToCache\<close> writes a byte
  array.
\<close>

datatype blob = BlobString string | BlobBytes "byte list"

record envelope =
  source :: string
  sourceDevice :: nat
  timestamp :: nat

record item =
  item_id :: string
  version :: nat
  item_envelope :: blob
  decrypted :: "blob option"
  item_timestamp :: nat
  attempts :: "nat option"




text \<open>What the receiver does that the outside can see, in the order it happens.\<close>

datatype revent =
    Respond nat string
  | StoreAddUnprocessed item
  | StoreUpdateUnprocessed string item
  | StoreRemoveUnprocessed string
  | StoreRemoveAllUnprocessed
  | QueueEnvelope envelope
  | QueueDecryptedEnvelope envelope "byte list"
  | OnEmpty
  | ErrorEvent error
  | ConsoleError string
  | ConsoleWarn string

text \<open>
  The state a \<^verbatim>\<open>MessageReceiver\<close> works on: the unprocessed cache and the blocked
  numbers held by the Store, the worker registry, and the log of events. \<open>write_fails\<close>
  names the item ids on which the Store rejects a write.
\<close>

record receiver =
  unprocessed :: "item list"
  write_fails :: "string \<Rightarrow> bool"
  blocked :: "string list"
  util_worker :: worker
  events :: "revent list"

definition log_event :: "revent \<Rightarrow> receiver \<Rightarrow> receiver" where
  "log_event e r = r\<lparr>events := events r @ [e]\<rparr>"


definition updateUnprocessed :: "string \<Rightarrow> item \<Rightarrow> receiver \<Rightarrow> error + receiver" where
  "updateUnprocessed ident data r =
     (if write_fails r ident then Inl (OtherError ''store write failed'')
      else Inr (log_event (StoreUpdateUnprocessed ident data)
             (r\<lparr>unprocessed :=
                  map (\<lambda>i. if item_id i = ident then data else i) (unprocessed r)\<rparr>)))"

definition removeUnprocessed :: "string \<Rightarrow> receiver \<Rightarrow> error + receiver" where
  "removeUnprocessed ident r =
     (if write_fails r ident then Inl (OtherError ''store write failed'')
      else Inr (log_event (StoreRemoveUnprocessed ident)
             (r\<lparr>unprocessed := filter (\<lambda>i. item_id i \<noteq> ident) (unprocessed r)\<rparr>)))"

definition removeAllUnprocessed :: "receiver \<Rightarrow> receiver" where
  "removeAllUnprocessed r = log_event StoreRemoveAllUnprocessed (r\<lparr>unprocessed := []\<rparr>)"

definition countUnprocessed :: "receiver \<Rightarrow> nat" where
  "countUnprocessed r = length (unprocessed r)"

definition getAllUnprocessed :: "receiver \<Rightarrow> item list" where
  "getAllUnprocessed r = unprocessed r"





record primitives =
  decryptWebsocketMessage :: "byte list \<Rightarrow> error + byte list"
  Envelope_decode :: "byte list \<Rightarrow> error + envelope"




text \<open>
  The body of the \<^verbatim>\<open>_.map\<close> callback of \<^verbatim>\<open>getAllFromCache\<close>, lines 471-489, for one
  item: the new attempt count, then the removal or the update, whose failure is logged
  and swallowed.
\<close>

definition attempts_after_load :: "item \<Rightarrow> nat" where
  "attempts_after_load i = 1 + (case attempts i of None \<Rightarrow> 0 | Some a \<Rightarrow> a)"

definition afterLoad :: "item \<Rightarrow> receiver \<Rightarrow> receiver" where
  "afterLoad i r =
     (let attempts' = attempts_after_load i
      in if attempts' \<ge> 3
         then
           (case removeUnprocessed (item_id i)
                   (log_event (ConsoleWarn ''getAllFromCache final attempt for envelope'') r) of
              Inl err \<Rightarrow>
                log_event (ConsoleError ''getAllFromCache error updating item after load:'')
                  (log_event (ConsoleWarn ''getAllFromCache final attempt for envelope'') r)
            | Inr r' \<Rightarrow> r')
         else
           (case updateUnprocessed (item_id i) (i\<lparr>attempts := Some attempts'\<rparr>) r of
              Inl err \<Rightarrow>
                log_event (ConsoleError ''getAllFromCache error updating item after load:'') r
            | Inr r' \<Rightarrow> r'))"

text \<open>
  \<^verbatim>\<open>getAllFromCache()\<close>, message_receiver.js lines 455-491. The callbacks of
  \<^verbatim>\<open>_.map\<close> issue their Store call in the order of the items; the items themselves
  are returned unchanged.
\<close>

definition getAllFromCache :: "receiver \<Rightarrow> item list \<times> receiver" where
  "getAllFromCache r =
     (let count = countUnprocessed r
      in if count > 250
         then ([], log_event (ConsoleWarn ''Deleted all instead of reprocessing'')
                     (removeAllUnprocessed r))
         else
           (let items = getAllUnprocessed r
            in (items, fold afterLoad items r)))"

text \<open>
  The class body of \<^verbatim>\<open>MessageReceiver\<close> declares the four conversion helpers as
  instance methods (lines 1363-1377, no \<^verbatim>\<open>static\<close>), and the module sets one static
  member only, \<^verbatim>\<open>MessageReceiver.WebAPI\<close> (lines 1380-1383). So
  \<^verbatim>\<open>MessageReceiver.stringToArrayBufferBase64\<close> and
  \<^verbatim>\<open>MessageReceiver.stringToArrayBuffer\<close> are \<^verbatim>\<open>undefined\<close>, and the calls of them
  in \<^verbatim>\<open>queueCached\<close> throw a TypeError.
\<close>

definition static_stringToArrayBufferBase64 :: "blob \<Rightarrow> error + byte list" where
  "static_stringToArrayBufferBase64 x = Inl TypeError"

definition static_stringToArrayBuffer :: "string \<Rightarrow> error + byte list" where
  "static_stringToArrayBuffer x = Inl TypeError"

text \<open>
  The conversion that \<^verbatim>\<open>queueCached\<close> applies to the envelope of an item (lines
  393-405) and to its decrypted payload (lines 410-422): the Base64 helper for a
  version 2 item, then the binary helper when the value is still a string.
\<close>

definition convert_cached :: "nat \<Rightarrow> blob \<Rightarrow> error + byte list" where
  "convert_cached ver x =
     (case (if ver = 2 then map_sum id BlobBytes (static_stringToArrayBufferBase64 x)
            else Inr x) of
        Inl e \<Rightarrow> Inl e
      | Inr (BlobString s) \<Rightarrow> static_stringToArrayBuffer s
      | Inr (BlobBytes b) \<Rightarrow> Inr b)"

text \<open>JavaScript truthiness of \<^verbatim>\<open>item.decrypted\<close>.\<close>

definition truthy_blob :: "blob option \<Rightarrow> bool" where
  "truthy_blob x =
     (case x of None \<Rightarrow> False | Some (BlobString s) \<Rightarrow> s \<noteq> [] | Some (BlobBytes b) \<Rightarrow> True)"

text \<open>
  The \<^verbatim>\<open>try\<close> block of \<^verbatim>\<open>queueCached(item)\<close>, lines 392-426: the error that leaves
  it, or the call it ends with, \<^verbatim>\<open>queueDecryptedEnvelope\<close> or \<^verbatim>\<open>queueEnvelope\<close>.
\<close>

definition queueCached_try :: "primitives \<Rightarrow> item \<Rightarrow> error + revent" where
  "queueCached_try prim i =
     (case convert_cached (version i) (item_envelope i) of
        Inl e \<Rightarrow> Inl e
      | Inr envelopePlaintext \<Rightarrow>
          (case Envelope_decode prim envelopePlaintext of
             Inl e \<Rightarrow> Inl e
           | Inr e \<Rightarrow>
               if truthy_blob (decrypted i)
               then
                 (case decrypted i of
                    None \<Rightarrow> Inr (QueueEnvelope e)
                  | Some payload \<Rightarrow>
                      (case convert_cached (version i) payload of
                         Inl err \<Rightarrow> Inl err
                       | Inr payloadPlaintext \<Rightarrow> Inr (QueueDecryptedEnvelope e payloadPlaintext)))
               else Inr (QueueEnvelope e)))"

text \<open>
  \<^verbatim>\<open>queueCached(item)\<close>, message_receiver.js lines 391-447: the \<^verbatim>\<open>try\<close> block, and
  the \<^verbatim>\<open>catch\<close> that logs the error and removes the item from the cache (a failure of
  the removal is logged and swallowed).
\<close>

definition queueCached :: "primitives \<Rightarrow> item \<Rightarrow> receiver \<Rightarrow> receiver" where
  "queueCached prim i r =
     (case queueCached_try prim i of
        Inr queued \<Rightarrow> log_event queued r
      | Inl err \<Rightarrow>
          (let r1 = log_event (ConsoleError ''queueCached error handling item'') r
           in case removeUnprocessed (item_id i) r1 of
                Inl deleteError \<Rightarrow> log_event (ConsoleError ''queueCached error deleting item'') r1
              | Inr r2 \<Rightarrow> r2))"













section \<open>Send engine\<close>

text \<open>
  The calls the send engine makes to its collaborators (Store, ratchet library, server)
  and to its own error register and callback, in the order they are issued.
\<close>

datatype sevent =
    StoreGetDeviceIds string
  | StoreRemoveSession string nat
  | CipherEncrypt string nat
  | CipherCloseOpenSession string nat
  | BuilderProcessPreKey string nat
  | ServerGetKeys string "nat option"
  | ServerSendMessages string "nat list"
  | RegisterError string string error
  | Callback "string list" nat

text \<open>
  A key bundle reply of the server, and the answers of the collaborators: what the
  server replies to a key request of a number (for all devices or for one), and
  whether the ratchet library accepts a pre-key bundle or encrypts for a device. The
  ratchet library raises no HTTP error.
\<close>

record device_keys =
  deviceId :: nat
  registrationId :: nat

record keys_response =
  identityKey :: "byte list"
  devices :: "device_keys list"

datatype ratchet_error = KeyChanged | RatchetFailure string

fun error_of_ratchet :: "ratchet_error \<Rightarrow> error" where
  "error_of_ratchet KeyChanged = IdentityKeyChanged"
| "error_of_ratchet (RatchetFailure s) = OtherError s"

record service =
  getKeys_reply :: "string \<Rightarrow> nat option \<Rightarrow> error + keys_response"
  processPreKey_reply :: "string \<Rightarrow> nat \<Rightarrow> ratchet_error option"
  encrypt_reply :: "string \<Rightarrow> nat \<Rightarrow> ratchet_error option"

datatype send_reply = SendOK | SendFailed error

text \<open>
  The state of one \<^verbatim>\<open>OutgoingMessage\<close> and of the session records of the Store: a
  session per address (number and device), open or closed.
\<close>

record sender =
  sessions :: "((string \<times> nat) \<times> bool) list"
  numbers :: "string list"
  numbersCompleted :: nat
  errors :: "(string \<times> string \<times> error) list"
  successfulNumbers :: "string list"
  strace :: "sevent list"

definition log_s :: "sevent \<Rightarrow> sender \<Rightarrow> sender" where
  "log_s e w = w\<lparr>strace := strace w @ [e]\<rparr>"

text \<open>\<^verbatim>\<open>numberCompleted()\<close>, outgoing_message.js lines 36-44.\<close>

definition numberCompleted :: "sender \<Rightarrow> sender" where
  "numberCompleted w =
     (let w1 = w\<lparr>numbersCompleted := numbersCompleted w + 1\<rparr>
      in if numbersCompleted w1 \<ge> length (numbers w1)
         then log_s (Callback (successfulNumbers w1) (length (errors w1))) w1
         else w1)"

text \<open>
  \<^verbatim>\<open>registerError(number, reason, error)\<close>, lines 46-63: a missing error and an HTTP
  error other than 404 are wrapped into an \<^verbatim>\<open>OutgoingMessageError\<close>.
\<close>

definition registerError :: "string \<Rightarrow> string \<Rightarrow> error option \<Rightarrow> sender \<Rightarrow> sender" where
  "registerError number reason err w =
     (let err' =
            (case err of
               None \<Rightarrow> OutgoingMessageError number None
             | Some (HTTPError code resp) \<Rightarrow>
                 if code \<noteq> 404 then OutgoingMessageError number (Some (HTTPError code resp))
                 else HTTPError code resp
             | Some e \<Rightarrow> e)
      in numberCompleted
           (log_s (RegisterError number reason err')
              (w\<lparr>errors := errors w @ [(number, reason, err')]\<rparr>)))"

text \<open>
  Modelled from the spec: the session operations of the Store and of the ratchet library
  (spec 6), which are external collaborators. \<open>getDeviceIds\<close> lists the devices of a
  number that have a session record, \<open>removeSession\<close> deletes the record of an address,
  \<open>closeOpenSessionForDevice\<close> marks it closed, and an accepted pre-key bundle leaves an
  open session for its address.
\<close>

definition getDeviceIds :: "string \<Rightarrow> sender \<Rightarrow> nat list" where
  "getDeviceIds number w =
     map (\<lambda>s. snd (fst s)) (filter (\<lambda>s. fst (fst s) = number) (sessions w))"

definition removeSession :: "string \<Rightarrow> nat \<Rightarrow> sender \<Rightarrow> sender" where
  "removeSession number device w =
     log_s (StoreRemoveSession number device)
       (w\<lparr>sessions := filter (\<lambda>s. fst s \<noteq> (number, device)) (sessions w)\<rparr>)"

definition closeOpenSessionForDevice :: "string \<Rightarrow> nat \<Rightarrow> sender \<Rightarrow> sender" where
  "closeOpenSessionForDevice number device w =
     log_s (CipherCloseOpenSession number device)
       (w\<lparr>sessions :=
            map (\<lambda>s. if fst s = (number, device) then (fst s, False) else s) (sessions w)\<rparr>)"

definition openSession :: "string \<Rightarrow> nat \<Rightarrow> sender \<Rightarrow> sender" where
  "openSession number device w =
     w\<lparr>sessions :=
         filter (\<lambda>s. fst s \<noteq> (number, device)) (sessions w) @ [((number, device), True)]\<rparr>"

text \<open>
  \<^verbatim>\<open>removeDeviceIdsForNumber(number, deviceIdsToRemove)\<close>, lines 298-308: one
  \<^verbatim>\<open>removeSession\<close> after the other.
\<close>

definition removeDeviceIdsForNumber :: "string \<Rightarrow> nat list \<Rightarrow> sender \<Rightarrow> sender" where
  "removeDeviceIdsForNumber number deviceIdsToRemove w =
     fold (removeSession number) deviceIdsToRemove w"

text \<open>
  \<^verbatim>\<open>handleResult(response)\<close> inside \<^verbatim>\<open>getKeysForNumber\<close>, lines 80-112. Every device
  of the reply that is asked for gets its \<^verbatim>\<open>processPreKey\<close> call; \<^verbatim>\<open>Promise.all\<close>
  rejects with the first failure.
\<close>

fun handleResult ::
  "service \<Rightarrow> string \<Rightarrow> nat list option \<Rightarrow> device_keys list \<Rightarrow> sender \<Rightarrow> error option \<times> sender" where
  "handleResult srv number updateDevices [] w = (None, w)"
| "handleResult srv number updateDevices (dev # devs) w =
     (if (case updateDevices of None \<Rightarrow> True | Some upd \<Rightarrow> deviceId dev \<in> set upd)
      then
        (let w1 = log_s (BuilderProcessPreKey number (deviceId dev)) w
         in case processPreKey_reply srv number (deviceId dev) of
              None \<Rightarrow> handleResult srv number updateDevices devs (openSession number (deviceId dev) w1)
            | Some re \<Rightarrow>
                (Some (error_of_ratchet re), snd (handleResult srv number updateDevices devs w1)))
      else handleResult srv number updateDevices devs w)"

text \<open>
  One link of the serial chain of \<^verbatim>\<open>getKeysForNumber\<close>, lines 119-133: the fetch of
  one device, \<^verbatim>\<open>handleResult\<close>, and the \<^verbatim>\<open>catch\<close>. \<open>upd\<close> is the whole list
  \<^verbatim>\<open>updateDevices\<close>, which \<^verbatim>\<open>handleResult\<close> reads. The result is \<open>None\<close> when the
  link is fulfilled and the error when it is rejected.
\<close>

definition fetchDevice ::
  "service \<Rightarrow> string \<Rightarrow> nat list \<Rightarrow> nat \<Rightarrow> sender \<Rightarrow> error option \<times> sender" where
  "fetchDevice srv number upd device w =
     (let w1 = log_s (ServerGetKeys number (Some device)) w;
          (res, w2) =
            (case getKeys_reply srv number (Some device) of
               Inl e \<Rightarrow> (Some e, w1)
             | Inr response \<Rightarrow> handleResult srv number (Some upd) (devices response) w1)
      in case res of
           None \<Rightarrow> (None, w2)
         | Some (HTTPError code resp) \<Rightarrow>
             if code = 404
             then (if device \<noteq> 1
                   then (None, removeDeviceIdsForNumber number [device] w2)
                   else (Some (UnregisteredUserError number (HTTPError code resp)), w2))
             else (Some (HTTPError code resp), w2)
         | Some e \<Rightarrow> (Some e, w2))"

text \<open>
  The chain over \<^verbatim>\<open>updateDevices\<close>, lines 117-136: each link starts when the one
  before it is fulfilled, and once the chain is rejected no later device is fetched.
\<close>

fun getKeys_serial ::
  "service \<Rightarrow> string \<Rightarrow> nat list \<Rightarrow> nat list \<Rightarrow> sender \<Rightarrow> error option \<times> sender" where
  "getKeys_serial srv number upd [] w = (None, w)"
| "getKeys_serial srv number upd (device # later) w =
     (case fetchDevice srv number upd device w of
        (None, w') \<Rightarrow> getKeys_serial srv number upd later w'
      | (Some e, w') \<Rightarrow> (Some e, w'))"

text \<open>\<^verbatim>\<open>getKeysForNumber(number, updateDevices)\<close>, outgoing_message.js lines 79-137.\<close>

definition getKeysForNumber ::
  "service \<Rightarrow> string \<Rightarrow> nat list option \<Rightarrow> sender \<Rightarrow> error option \<times> sender" where
  "getKeysForNumber srv number updateDevices w =
     (case updateDevices of
        None \<Rightarrow>
          (let w1 = log_s (ServerGetKeys number None) w
           in case getKeys_reply srv number None of
                Inl e \<Rightarrow> (Some e, w1)
              | Inr response \<Rightarrow> handleResult srv number None (devices response) w1)
      | Some upd \<Rightarrow> getKeys_serial srv number upd upd w)"

text \<open>
  The encryption for every device in \<^verbatim>\<open>doSendMessage\<close>, lines 188-213: all calls are
  issued, and \<^verbatim>\<open>Promise.all\<close> rejects with the first failure.
\<close>

fun encryptAll :: "service \<Rightarrow> string \<Rightarrow> nat list \<Rightarrow> sender \<Rightarrow> ratchet_error option \<times> sender" where
  "encryptAll srv number [] w = (None, w)"
| "encryptAll srv number (device # later) w =
     (let w1 = log_s (CipherEncrypt number device) w;
          (res, w2) = encryptAll srv number later w1
      in (case encrypt_reply srv number device of None \<Rightarrow> res | Some re \<Rightarrow> Some re, w2))"

text \<open>
  \<^verbatim>\<open>transmitMessage\<close>, lines 139-159: what the rejection of \<^verbatim>\<open>server.sendMessages\<close>
  is turned into.
\<close>

definition transmitMessage_error :: "string \<Rightarrow> error \<Rightarrow> error" where
  "transmitMessage_error number e =
     (case e of
        HTTPError code resp \<Rightarrow>
          if code \<noteq> 409 \<and> code \<noteq> 410
          then (if code = 404 then UnregisteredUserError number e
                else SendMessageNetworkError number e)
          else e
      | _ \<Rightarrow> e)"

text \<open>
  Closing the sessions of the stale devices, lines 240-244: \<^verbatim>\<open>ciphers\<close> has an entry
  for each device of this attempt, and a stale device without one raises a TypeError.
\<close>

fun closeStale :: "string \<Rightarrow> nat list \<Rightarrow> nat list \<Rightarrow> sender \<Rightarrow> error option \<times> sender" where
  "closeStale number deviceIds [] w = (None, w)"
| "closeStale number deviceIds (device # later) w =
     (if device \<in> set deviceIds
      then closeStale number deviceIds later (closeOpenSessionForDevice number device w)
      else (Some TypeError, w))"

text \<open>
  How the promise of a send attempt ends. The replies of \<^verbatim>\<open>server.sendMessages\<close> are
  a list, one per call; when the list is used up the server does not answer and the
  promise never settles.
\<close>

datatype outcome = Fulfilled | Rejected error | NeverSettles

text \<open>
  \<^verbatim>\<open>doSendMessage(number, deviceIds, recurse)\<close>, lines 184-273, and
  \<^verbatim>\<open>reloadDevicesAndSend(number, recurse)\<close>, lines 65-77. The result is the outcome,
  the replies not yet used, and the new state.
\<close>

fun doSendMessage ::
    "service \<Rightarrow> send_reply list \<Rightarrow> string \<Rightarrow> nat list \<Rightarrow> bool \<Rightarrow> sender
     \<Rightarrow> outcome \<times> send_reply list \<times> sender"
  and reloadDevicesAndSend ::
    "service \<Rightarrow> send_reply list \<Rightarrow> string \<Rightarrow> bool \<Rightarrow> sender
     \<Rightarrow> outcome \<times> send_reply list \<times> sender" where
  "doSendMessage srv script number deviceIds recurse w =
     (let (enc, w1) = encryptAll srv number deviceIds w
      in case enc of
           Some KeyChanged \<Rightarrow> (Rejected IdentityKeyChanged, script, w1)
         | Some (RatchetFailure s) \<Rightarrow>
             (Fulfilled, script,
              registerError number ''Failed to create or send message'' (Some (OtherError s)) w1)
         | None \<Rightarrow>
             (case script of
                [] \<Rightarrow> (NeverSettles, [], log_s (ServerSendMessages number deviceIds) w1)
              | reply # script' \<Rightarrow>
                  (let w2 = log_s (ServerSendMessages number deviceIds) w1
                   in case reply of
                        SendOK \<Rightarrow>
                          (Fulfilled, script',
                           numberCompleted
                             (w2\<lparr>successfulNumbers := successfulNumbers w2 @ [number]\<rparr>))
                      | SendFailed e0 \<Rightarrow>
                          (case transmitMessage_error number e0 of
                             HTTPError code resp \<Rightarrow>
                               if code = 410 \<or> code = 409
                               then
                                 (if \<not> recurse
                                  then (Fulfilled, script',
                                        registerError number
                                          ''Hit retry limit attempting to reload device list''
                                          (Some (HTTPError code resp)) w2)
                                  else
                                    (let (p, w3) =
                                           (if code = 409
                                            then (None, removeDeviceIdsForNumber number
                                                          (extraDevices resp) w2)
                                            else closeStale number deviceIds (staleDevices resp) w2)
                                     in case p of
                                          Some err \<Rightarrow> (Rejected err, script', w3)
                                        | None \<Rightarrow>
                                            (let resetDevices =
                                                   (if code = 410 then staleDevices resp
                                                    else missingDevices resp);
                                                 (k, w4) = getKeysForNumber srv number
                                                             (Some resetDevices) w3
                                             in case k of
                                                  Some err \<Rightarrow> (Rejected err, script', w4)
                                                | None \<Rightarrow>
                                                    reloadDevicesAndSend srv script' number
                                                      (code = 409) w4)))
                               else (Fulfilled, script',
                                     registerError number ''Failed to create or send message''
                                       (Some (HTTPError code resp)) w2)
                           | IdentityKeyChanged \<Rightarrow> (Rejected IdentityKeyChanged, script', w2)
                           | e \<Rightarrow>
                               (Fulfilled, script',
                                registerError number ''Failed to create or send message''
                                  (Some e) w2)))))"
| "reloadDevicesAndSend srv script number recurse w =
     (let w1 = log_s (StoreGetDeviceIds number) w;
          deviceIds = getDeviceIds number w1
      in if length deviceIds = 0
         then (Fulfilled, script,
               registerError number ''Got empty device list when loading device keys'' None w1)
         else doSendMessage srv script number deviceIds recurse w1)"

declare doSendMessage.simps [simp del] reloadDevicesAndSend.simps [simp del]

text \<open>The key requests among the events.\<close>

fun is_ServerGetKeys :: "sevent \<Rightarrow> bool" where
  "is_ServerGetKeys (ServerGetKeys number device) = True"
| "is_ServerGetKeys e = False"

text \<open>
  The key request for a device succeeds: the server replies with a bundle and the ratchet
  library accepts every device of it.
\<close>

definition keys_available :: "service \<Rightarrow> string \<Rightarrow> nat \<Rightarrow> bool" where
  "keys_available srv number device =
     (case getKeys_reply srv number (Some device) of
        Inl e \<Rightarrow> False
      | Inr response \<Rightarrow>
          list_all (\<lambda>dev. processPreKey_reply srv number (deviceId dev) = None) (devices response))"

text \<open>A state with more events at the end of its trace.\<close>

definition append_trace :: "sevent list \<Rightarrow> sender \<Rightarrow> sender" where
  "append_trace es w = w\<lparr>strace := strace w @ es\<rparr>"

text \<open>
  A server that knows every device of a number but the listed ones (for which the key
  request gives 404), and a fresh \<^verbatim>\<open>OutgoingMessage\<close> over given session records, for
  the examples below.
\<close>

definition no_devices :: response where
  "no_devices = \<lparr>extraDevices = [], missingDevices = [], staleDevices = []\<rparr>"

definition sample_service :: "nat list \<Rightarrow> service" where
  "sample_service unknown =
     \<lparr>getKeys_reply =
        (\<lambda>number device.
           case device of
             None \<Rightarrow> Inr \<lparr>identityKey = [5], devices = []\<rparr>
           | Some d \<Rightarrow>
               if d \<in> set unknown then Inl (HTTPError 404 no_devices)
               else Inr \<lparr>identityKey = [5], devices = [\<lparr>deviceId = d, registrationId = 42\<rparr>]\<rparr>),
      processPreKey_reply = (\<lambda>number d. None),
      encrypt_reply = (\<lambda>number d. None)\<rparr>"

definition sample_sender :: "((string \<times> nat) \<times> bool) list \<Rightarrow> string list \<Rightarrow> sender" where
  "sample_sender records recipients =
     \<lparr>sessions = records, numbers = recipients, numbersCompleted = 0, errors = [],
      successfulNumbers = [], strace = []\<rparr>"

section \<open>Verified properties: padding codec\<close>

lemma getPaddedMessageLength_eq:
  "getPaddedMessageLength n = Suc (n div 160) * 160"
proof -
  have "(if Suc n mod 160 \<noteq> 0 then Suc n div 160 + 1 else Suc n div 160) = Suc (n div 160)"
    by (simp add: div_Suc)
  then show ?thesis
    by (simp add: getPaddedMessageLength_def Let_def)
qed

lemma getPaddedMessageLength_bounds:
  "n < getPaddedMessageLength n \<and> getPaddedMessageLength n mod 160 = 0"
  using div_mult_mod_eq[of n 160] mod_less_divisor[of 160 n]
  unfolding getPaddedMessageLength_eq by auto

lemma getPlaintext_fresh:
  fixes enc :: "'m \<Rightarrow> byte list"
  defines "k \<equiv> \<lambda>m. getPaddedMessageLength (length (enc m) + 1) - 2 - length (enc m)"
  shows "getPlaintext enc (OutgoingMessage_new m) =
           Inr (enc m @ 0x80 # replicate (k m) 0,
                \<lparr>message = m, plaintext = Some (enc m @ 0x80 # replicate (k m) 0)\<rparr>)"
proof -
  define L where "L = length (enc m)"
  define N where "N = getPaddedMessageLength (L + 1) - 1"
  have N: "L < N" "N - L = Suc (k m)"
    using getPaddedMessageLength_bounds[of "L + 1"] by (auto simp: N_def k_def L_def)
  have set: "uint8array_set (uint8array_new N) (enc m) = Inr (enc m @ replicate (N - L) 0)"
    using N by (simp add: uint8array_set_def uint8array_new_def L_def)
  have store: "uint8array_store (enc m @ replicate (N - L) 0) L 0x80
                 = enc m @ 0x80 # replicate (k m) 0"
    using N by (simp add: uint8array_store_def L_def list_update_append)
  have N': "getPaddedMessageLength (Suc (length (enc m))) - Suc 0 = N"
    by (simp add: N_def L_def)
  show ?thesis
    using set store
    by (simp add: getPlaintext_def OutgoingMessage_new_def Let_def N' L_def)
qed

lemma unpad_loop_append:
  "n \<le> length xs \<Longrightarrow> unpad_loop (xs @ ys) n = unpad_loop xs n"
  by (induction n) (simp_all add: nth_append)

lemma unpad_snoc:
  "unpad (xs @ [x]) =
     (if x = 0x80 then Inr (Some xs) else if x \<noteq> 0 then Inl InvalidPadding else unpad xs)"
  by (simp add: unpad_def unpad_loop_append)

lemma unpad_Nil: "unpad [] = Inr None"
  by (simp add: unpad_def)

lemma unpad_append_zeros: "unpad (xs @ replicate k 0) = unpad xs"
proof (induction k)
  case 0
  show ?case by simp
next
  case (Suc k)
  have "xs @ replicate (Suc k) 0 = (xs @ replicate k 0) @ [0]"
    by (simp add: replicate_append_same)
  then show ?case
    using Suc by (simp only: unpad_snoc) simp
qed

lemma unpad_terminated: "unpad (xs @ 0x80 # replicate k 0) = Inr (Some xs)"
proof -
  have "xs @ 0x80 # replicate k 0 = (xs @ [0x80]) @ replicate k 0"
    by simp
  then show ?thesis
    by (simp only: unpad_append_zeros unpad_snoc) simp
qed

lemma unpad_cases:
  "unpad xs =
     (case dropWhile (\<lambda>b. b = 0) (rev xs) of
        [] \<Rightarrow> Inr None
      | b # rest \<Rightarrow> if b = 0x80 then Inr (Some (rev rest)) else Inl InvalidPadding)"
proof (induction xs rule: rev_induct)
  case Nil
  show ?case by (simp add: unpad_Nil)
next
  case (snoc x xs)
  show ?case
    using snoc by (simp add: unpad_snoc)
qed

lemma unpad_invalid_iff:
  "unpad xs = Inl InvalidPadding \<longleftrightarrow>
     (\<exists>i<length xs. xs ! i \<noteq> 0 \<and> xs ! i \<noteq> 0x80 \<and>
        (\<forall>j. i < j \<and> j < length xs \<longrightarrow> xs ! j \<noteq> 0x80))"
proof (induction xs rule: rev_induct)
  case Nil
  show ?case by (simp add: unpad_Nil)
next
  case (snoc x xs)
  let ?n = "length xs"
  let ?Q = "\<lambda>ys i. ys ! i \<noteq> 0 \<and> ys ! i \<noteq> 0x80 \<and>
        (\<forall>j. i < j \<and> j < length ys \<longrightarrow> ys ! j \<noteq> (0x80::byte))"
  consider (stop) "x = 0x80" | (bad) "x \<noteq> 0x80" "x \<noteq> 0" | (zero) "x = 0" by blast
  then show ?case
  proof cases
    case stop
    have "\<not> (\<exists>i<length (xs @ [x]). ?Q (xs @ [x]) i)"
    proof
      assume "\<exists>i<length (xs @ [x]). ?Q (xs @ [x]) i"
      then obtain i where i: "i < Suc ?n" "?Q (xs @ [x]) i" by auto
      from i stop have "i \<noteq> ?n" by auto
      with i have "i < ?n" by simp
      from i have "\<forall>j. i < j \<and> j < length (xs @ [x]) \<longrightarrow> (xs @ [x]) ! j \<noteq> 0x80" by blast
      then have "i < ?n \<and> ?n < length (xs @ [x]) \<longrightarrow> (xs @ [x]) ! ?n \<noteq> 0x80" by (rule spec)
      with \<open>i < ?n\<close> have "(xs @ [x]) ! ?n \<noteq> 0x80" by simp
      with stop show False by simp
    qed
    with stop show ?thesis by (simp add: unpad_snoc)
  next
    case bad
    have "?n < length (xs @ [x]) \<and> ?Q (xs @ [x]) ?n" using bad by auto
    then have "\<exists>i<length (xs @ [x]). ?Q (xs @ [x]) i" by blast
    with bad show ?thesis by (simp add: unpad_snoc)
  next
    case zero
    have "(\<exists>i<length (xs @ [x]). ?Q (xs @ [x]) i) \<longleftrightarrow> (\<exists>i<?n. ?Q xs i)"
    proof
      assume "\<exists>i<length (xs @ [x]). ?Q (xs @ [x]) i"
      then obtain i where i: "i < Suc ?n" "?Q (xs @ [x]) i" by auto
      from i zero have "i \<noteq> ?n" by auto
      with i have lt: "i < ?n" by simp
      have "?Q xs i"
      proof (intro conjI allI impI)
        show "xs ! i \<noteq> 0" using i lt by (simp add: nth_append)
        show "xs ! i \<noteq> 0x80" using i lt by (simp add: nth_append)
        fix j assume j: "i < j \<and> j < ?n"
        then have "(xs @ [x]) ! j \<noteq> 0x80" using i by simp
        then show "xs ! j \<noteq> 0x80" using j by (simp add: nth_append)
      qed
      with lt show "\<exists>i<?n. ?Q xs i" by blast
    next
      assume "\<exists>i<?n. ?Q xs i"
      then obtain i where i: "i < ?n" "?Q xs i" by auto
      have "?Q (xs @ [x]) i"
      proof (intro conjI allI impI)
        show "(xs @ [x]) ! i \<noteq> 0" using i by (simp add: nth_append)
        show "(xs @ [x]) ! i \<noteq> 0x80" using i by (simp add: nth_append)
        fix j assume j: "i < j \<and> j < length (xs @ [x])"
        show "(xs @ [x]) ! j \<noteq> 0x80"
        proof (cases "j < ?n")
          case True
          then show ?thesis using i j by (simp add: nth_append)
        next
          case False
          with j have "j = ?n" by simp
          then show ?thesis using zero by simp
        qed
      qed
      moreover have "i < length (xs @ [x])" using i by simp
      ultimately show "\<exists>i<length (xs @ [x]). ?Q (xs @ [x]) i" by blast
    qed
    with zero snoc show ?thesis by (simp add: unpad_snoc)
  qed
qed

lemma unpad_None_iff: "unpad xs = Inr None \<longleftrightarrow> (\<forall>b\<in>set xs. b = 0)"
  by (induction xs rule: rev_induct) (auto simp: unpad_Nil unpad_snoc)

lemma unpad_error_only: "unpad xs = Inl e \<Longrightarrow> e = InvalidPadding"
  by (induction xs rule: rev_induct) (auto simp: unpad_Nil unpad_snoc split: if_splits)

text \<open>
  Claim C1, as amended. For every message, the buffer \<^verbatim>\<open>getPlaintext\<close> builds on a
  fresh \<^verbatim>\<open>OutgoingMessage\<close> has length \<open>160 * ceil ((L + 2) / 160) - 1\<close> for a message of
  \<open>L\<close> encoded bytes: the length plus one is a multiple of 160, the length itself is
  not. Scanning from the end, the first non-zero byte is \<open>0x80\<close>, right after the
  message bytes; it is the last non-zero byte of the buffer.
\<close>

theorem C1_padded_length:
  "\<exists>p om'. getPlaintext enc (OutgoingMessage_new m) = Inr (p, om')
     \<and> plaintext om' = Some p
     \<and> length p = 160 * ((length (enc m) + 2 + 159) div 160) - 1
     \<and> Suc (length p) mod 160 = 0
     \<and> length p mod 160 = 159
     \<and> dropWhile (\<lambda>b. b = 0) (rev p) = 0x80 # rev (enc m)
     \<and> last (filter (\<lambda>b. b \<noteq> 0) p) = 0x80"
proof -
  define k where "k = getPaddedMessageLength (length (enc m) + 1) - 2 - length (enc m)"
  define p where "p = enc m @ 0x80 # replicate k 0"
  have len: "Suc (length p) = getPaddedMessageLength (length (enc m) + 1)"
    using getPaddedMessageLength_bounds[of "length (enc m) + 1"]
    by (auto simp: p_def k_def)
  have "(length (enc m) + 2 + 159) div 160 = ((length (enc m) + 1) + 160) div 160"
    by (simp add: add.commute)
  also have "\<dots> = Suc ((length (enc m) + 1) div 160)"
    by (simp only: div_add_self2)
  finally have ceil: "(length (enc m) + 2 + 159) div 160 = Suc ((length (enc m) + 1) div 160)" .
  have l1: "length p = 160 * ((length (enc m) + 2 + 159) div 160) - 1"
    using len unfolding ceil getPaddedMessageLength_eq by simp
  have l2: "Suc (length p) mod 160 = 0"
    using len getPaddedMessageLength_bounds[of "length (enc m) + 1"] by simp
  have l3: "length p mod 160 = 159"
    using l2 by (simp add: mod_Suc split: if_splits)
  have d: "dropWhile (\<lambda>b. b = 0) (rev p) = 0x80 # rev (enc m)"
    by (simp add: p_def dropWhile_append3)
  have f: "last (filter (\<lambda>b. b \<noteq> 0) p) = 0x80"
    by (simp add: p_def)
  have g: "getPlaintext enc (OutgoingMessage_new m) = Inr (p, \<lparr>message = m, plaintext = Some p\<rparr>)"
    unfolding p_def k_def by (rule getPlaintext_fresh)
  show ?thesis
    using g l1 l2 l3 d f by simp
qed

text \<open>
  Claim C1 as stated fails: a three-byte message is padded to 159 bytes, and 159 is not
  a multiple of 160.
\<close>

theorem C1_counterexample:
  "getPlaintext (\<lambda>m. m) (OutgoingMessage_new [1, 2, 3]) =
     Inr ([1, 2, 3, 0x80] @ replicate 155 0,
          \<lparr>message = [1, 2, 3], plaintext = Some ([1, 2, 3, 0x80] @ replicate 155 0)\<rparr>)
   \<and> length ([1, 2, 3, 0x80] @ replicate 155 (0::byte)) mod 160 = 159"
  using getPlaintext_fresh[of "\<lambda>m. m" "[1, 2, 3]"]
  by (simp add: getPaddedMessageLength_eq)

text \<open>
  Claim C2. For every message, \<^verbatim>\<open>unpad\<close> applied to the buffer that \<^verbatim>\<open>getPlaintext\<close>
  builds (the message bytes, then \<open>0x80\<close>, then zeros) returns the message bytes; a
  second call of \<^verbatim>\<open>getPlaintext\<close> returns the same cached buffer.
\<close>

theorem C2_unpad_getPlaintext:
  "\<exists>p om'. getPlaintext enc (OutgoingMessage_new m) = Inr (p, om')
     \<and> unpad p = Inr (Some (enc m))
     \<and> getPlaintext enc om' = Inr (p, om')"
proof -
  define k where "k = getPaddedMessageLength (length (enc m) + 1) - 2 - length (enc m)"
  define p where "p = enc m @ 0x80 # replicate k 0"
  define om' where "om' = \<lparr>message = m, plaintext = Some p\<rparr>"
  have "getPlaintext enc (OutgoingMessage_new m) = Inr (p, om')"
    unfolding p_def k_def om'_def by (rule getPlaintext_fresh)
  moreover have "unpad p = Inr (Some (enc m))"
    unfolding p_def by (rule unpad_terminated)
  moreover have "getPlaintext enc om' = Inr (p, om')"
    by (simp add: getPlaintext_def om'_def)
  ultimately show ?thesis by blast
qed

text \<open>
  Claim C10. \<^verbatim>\<open>unpad\<close> raises "Invalid padding" exactly when, scanning from the last
  byte towards the first, a byte other than \<open>0x00\<close> and \<open>0x80\<close> comes before any
  \<open>0x80\<close>: there is an index holding such a byte with no \<open>0x80\<close> behind it. It raises no
  other error, and on an input of zero bytes only (the empty input included) it returns
  \<^verbatim>\<open>undefined\<close> without an error.
\<close>

theorem C10_unpad_invalid_padding:
  "(unpad xs = Inl InvalidPadding \<longleftrightarrow>
      (\<exists>i<length xs. xs ! i \<noteq> 0 \<and> xs ! i \<noteq> 0x80 \<and>
         (\<forall>j. i < j \<and> j < length xs \<longrightarrow> xs ! j \<noteq> 0x80)))
   \<and> (\<forall>e. unpad xs = Inl e \<longrightarrow> e = InvalidPadding)
   \<and> ((\<forall>b\<in>set xs. b = 0) \<longrightarrow> unpad xs = Inr None)"
proof (intro conjI)
  show "unpad xs = Inl InvalidPadding \<longleftrightarrow>
      (\<exists>i<length xs. xs ! i \<noteq> 0 \<and> xs ! i \<noteq> 0x80 \<and>
         (\<forall>j. i < j \<and> j < length xs \<longrightarrow> xs ! j \<noteq> 0x80))"
    by (rule unpad_invalid_iff)
  show "\<forall>e. unpad xs = Inl e \<longrightarrow> e = InvalidPadding"
    using unpad_error_only by blast
  show "(\<forall>b\<in>set xs. b = 0) \<longrightarrow> unpad xs = Inr None"
    using unpad_None_iff by blast
qed

text \<open>Witness for C10: one input of each kind.\<close>

theorem C10_unpad_invalid_padding_witness:
  "unpad [0x05, 0x80, 0x07, 0x00] = Inl InvalidPadding
   \<and> unpad [0x07, 0x00, 0x80, 0x00] = Inr (Some [0x07, 0x00])
   \<and> unpad [0x00, 0x00, 0x00] = Inr None
   \<and> unpad [] = Inr None"
proof -
  let ?bad = "[0x05, 0x80, 0x07, 0x00] :: byte list"
  have "\<forall>j. 2 < j \<and> j < length ?bad \<longrightarrow> ?bad ! j \<noteq> 0x80"
  proof (intro allI impI)
    fix j :: nat assume "2 < j \<and> j < length ?bad"
    then have "j = 3" by simp
    then show "?bad ! j \<noteq> 0x80" by simp
  qed
  then have "2 < length ?bad \<and> ?bad ! 2 \<noteq> 0 \<and> ?bad ! 2 \<noteq> 0x80 \<and>
         (\<forall>j. 2 < j \<and> j < length ?bad \<longrightarrow> ?bad ! j \<noteq> 0x80)"
    by simp
  then have ex: "\<exists>i<length ?bad. ?bad ! i \<noteq> 0 \<and> ?bad ! i \<noteq> 0x80 \<and>
         (\<forall>j. i < j \<and> j < length ?bad \<longrightarrow> ?bad ! j \<noteq> 0x80)"
    by blast
  have 1: "unpad ?bad = Inl InvalidPadding"
    using C10_unpad_invalid_padding[of ?bad] ex by blast
  have 2: "unpad [0x00, 0x00, 0x00] = Inr None"
    using C10_unpad_invalid_padding[of "[0x00, 0x00, 0x00]"] by simp
  have 3: "unpad [] = Inr None"
    using C10_unpad_invalid_padding[of "[]"] by simp
  have 4: "unpad [0x07, 0x00, 0x80, 0x00] = Inr (Some [0x07, 0x00])"
    by (simp add: unpad_def)
  show ?thesis using 1 2 3 4 by simp
qed

section \<open>Verified properties: unknown flags\<close>

lemma processDecrypted_flags_reject_iff:
  "processDecrypted_flags FLAGS d = Inl e \<longleftrightarrow>
     (e = UnknownFlags
      \<and> uint32_or_zero (flags d) \<noteq> 0
      \<and> uint32_or_zero (flags d) AND END_SESSION FLAGS = 0
      \<and> uint32_or_zero (flags d) AND EXPIRATION_TIMER_UPDATE FLAGS = 0
      \<and> uint32_or_zero (flags d) AND PROFILE_KEY_UPDATE FLAGS = 0)"
  by (cases "flags d"; cases "expireTimer d")
     (auto simp: processDecrypted_flags_def uint32_or_zero_def Let_def)

lemma processDecrypted_end_session:
  "uint32_or_zero (flags d) AND END_SESSION FLAGS \<noteq> 0 \<Longrightarrow>
   processDecrypted FLAGS rest d =
     Inr (d\<lparr>body := None, attachments := [], group := None,
            flags := Some (uint32_or_zero (flags d)),
            expireTimer := Some (uint32_or_zero (expireTimer d))\<rparr>)"
  by (cases "flags d"; cases "expireTimer d")
     (auto simp: processDecrypted_def processDecrypted_flags_def uint32_or_zero_def Let_def)

text \<open>
  Claim C5, as amended. With \<open>f\<close> the flags of the message (0 when absent),
  \<^verbatim>\<open>processDecrypted\<close> throws "Unknown flags in message" in its flag stage exactly when
  \<open>f\<close> is non-zero and shares no bit with END_SESSION, EXPIRATION_TIMER_UPDATE or
  PROFILE_KEY_UPDATE. As soon as \<open>f\<close> has the END_SESSION bit, the message is accepted
  and resolved at once, whatever other bits are set.
\<close>

theorem C5_unknown_flags:
  "(processDecrypted_flags FLAGS d = Inl UnknownFlags \<longleftrightarrow>
      (uint32_or_zero (flags d) \<noteq> 0
       \<and> uint32_or_zero (flags d) AND END_SESSION FLAGS = 0
       \<and> uint32_or_zero (flags d) AND EXPIRATION_TIMER_UPDATE FLAGS = 0
       \<and> uint32_or_zero (flags d) AND PROFILE_KEY_UPDATE FLAGS = 0))
   \<and> (processDecrypted_flags FLAGS d = Inl UnknownFlags \<longrightarrow>
        processDecrypted FLAGS rest d = Inl UnknownFlags)
   \<and> (\<forall>e. processDecrypted_flags FLAGS d = Inl e \<longrightarrow> e = UnknownFlags)
   \<and> (uint32_or_zero (flags d) AND END_SESSION FLAGS \<noteq> 0 \<longrightarrow>
        processDecrypted FLAGS rest d =
          Inr (d\<lparr>body := None, attachments := [], group := None,
                 flags := Some (uint32_or_zero (flags d)),
                 expireTimer := Some (uint32_or_zero (expireTimer d))\<rparr>))"
proof (intro conjI)
  show "processDecrypted_flags FLAGS d = Inl UnknownFlags \<longleftrightarrow>
      (uint32_or_zero (flags d) \<noteq> 0
       \<and> uint32_or_zero (flags d) AND END_SESSION FLAGS = 0
       \<and> uint32_or_zero (flags d) AND EXPIRATION_TIMER_UPDATE FLAGS = 0
       \<and> uint32_or_zero (flags d) AND PROFILE_KEY_UPDATE FLAGS = 0)"
    using processDecrypted_flags_reject_iff[of FLAGS d UnknownFlags] by simp
  show "processDecrypted_flags FLAGS d = Inl UnknownFlags \<longrightarrow>
        processDecrypted FLAGS rest d = Inl UnknownFlags"
    by (simp add: processDecrypted_def)
  show "\<forall>e. processDecrypted_flags FLAGS d = Inl e \<longrightarrow> e = UnknownFlags"
    using processDecrypted_flags_reject_iff[of FLAGS d] by blast
  show "uint32_or_zero (flags d) AND END_SESSION FLAGS \<noteq> 0 \<longrightarrow>
        processDecrypted FLAGS rest d =
          Inr (d\<lparr>body := None, attachments := [], group := None,
                 flags := Some (uint32_or_zero (flags d)),
                 expireTimer := Some (uint32_or_zero (expireTimer d))\<rparr>)"
    using processDecrypted_end_session[of d FLAGS rest] by blast
qed

text \<open>
  Witness for C5 with the schema's flag values: flags 8 (one unknown bit) is rejected,
  flags 1 (END_SESSION) is accepted.
\<close>

theorem C5_unknown_flags_witness:
  "processDecrypted SignalService_Flags Inr
        \<lparr>body = Some ''hi'', attachments = [], group = None, flags = Some 8, expireTimer = None\<rparr>
      = Inl UnknownFlags
   \<and> processDecrypted SignalService_Flags Inr
        \<lparr>body = Some ''hi'', attachments = [], group = None, flags = Some 1, expireTimer = None\<rparr>
      = Inr \<lparr>body = None, attachments = [], group = None, flags = Some 1, expireTimer = Some 0\<rparr>"
proof -
  let ?d8 = "\<lparr>body = Some ''hi'', attachments = [], group = None, flags = Some (8::32 word),
               expireTimer = None\<rparr>"
  let ?d1 = "\<lparr>body = Some ''hi'', attachments = [], group = None, flags = Some (1::32 word),
               expireTimer = None\<rparr>"
  have 8: "processDecrypted SignalService_Flags Inr ?d8 = Inl UnknownFlags"
    using C5_unknown_flags[of SignalService_Flags ?d8 Inr]
    by (simp add: uint32_or_zero_def SignalService_Flags_def)
  have 1: "processDecrypted SignalService_Flags Inr ?d1
      = Inr \<lparr>body = None, attachments = [], group = None, flags = Some 1, expireTimer = Some 0\<rparr>"
    using C5_unknown_flags[of SignalService_Flags ?d1 Inr]
    by (simp add: uint32_or_zero_def SignalService_Flags_def)
  show ?thesis using 8 1 by simp
qed

text \<open>
  Claim C5 as stated fails: flags 9 has the unknown bit 8 next to END_SESSION, and the
  message is accepted (resolved with body, attachments and group cleared), not rejected.
\<close>

theorem C5_counterexample:
  "(9::32 word) AND NOT (END_SESSION SignalService_Flags OR EXPIRATION_TIMER_UPDATE SignalService_Flags
        OR PROFILE_KEY_UPDATE SignalService_Flags) = 8
   \<and> processDecrypted SignalService_Flags Inr
        \<lparr>body = Some ''hi'', attachments = [], group = None, flags = Some 9, expireTimer = None\<rparr>
      = Inr \<lparr>body = None, attachments = [], group = None, flags = Some 9, expireTimer = Some 0\<rparr>"
  by (simp add: processDecrypted_def processDecrypted_flags_def SignalService_Flags_def Let_def
      uint32_or_zero_def)

section \<open>Verified properties: retry negotiator\<close>

lemma validateRetryContentMessage_spec:
  "validateRetryContentMessage c = retry_content_valid_spec c"
proof (cases "dataMessage c")
  case None
  then show ?thesis
    by (cases "syncMessage c"; cases "callMessage c"; cases "nullMessage c")
       (simp_all add: validateRetryContentMessage_def retry_content_valid_spec_def)
next
  case (Some d)
  then show ?thesis
    by (cases "syncMessage c"; cases "callMessage c"; cases "nullMessage c")
       (auto simp: validateRetryContentMessage_def retry_content_valid_spec_def)
qed

text \<open>
  Claim C8, as amended. After a successful pre-key decryption, with \<open>sentAt\<close> the
  message's \<^verbatim>\<open>sent_at\<close> when that is present and non-zero and the current time
  otherwise: if \<open>sentAt < 1496300400000\<close> the plaintext goes to the legacy DataMessage
  path; otherwise it goes to the Content path exactly when \<^verbatim>\<open>Content.decode\<close> succeeds
  and the decoded message passes the validation as the specification words it, and to the
  legacy path in every other case.
\<close>

theorem C8_tryMessageAgain:
  assumes "decryptPreKeyWhisperMessage cipher ciphertext number device = Inr p"
  shows "tryMessageAgain now cipher decodeContent number device ciphertext msg =
           Inr ((if or_now (sent_at msg) now < 1496300400000 then LegacyMessage
                 else case decodeContent (uint8array_of p) of
                        None \<Rightarrow> LegacyMessage
                      | Some c \<Rightarrow> if retry_content_valid_spec c then ContentMessage
                                  else LegacyMessage)
                  \<lparr>re_source = number, re_sourceDevice = device,
                   re_receivedAt = or_now (received_at msg) now,
                   re_timestamp = or_now (sent_at msg) now\<rparr> p)"
  using assms
  by (simp add: tryMessageAgain_def Let_def startOfJune_def validateRetryContentMessage_spec
      split: option.splits)

text \<open>
  Claim C8 as stated fails for \<^verbatim>\<open>sent_at = 0\<close>: 0 is before the cutoff, but
  \<^verbatim>\<open>message.sent_at || Date.now()\<close> replaces it by the current time, and the plaintext,
  which decodes to a valid Content message, is dispatched as Content.
\<close>

theorem C8_counterexample:
  "(0::nat) < 1496300400000
   \<and> tryMessageAgain 1600000000000 sample_cipher sample_decodeContent ''+15550003333'' 1 [0x01]
        \<lparr>sent_at = Some 0, received_at = Some 1600000000001\<rparr>
      = Inr (ContentMessage
              \<lparr>re_source = ''+15550003333'', re_sourceDevice = 1,
               re_receivedAt = 1600000000001, re_timestamp = 1600000000000\<rparr>
              (Some [10, 4, 10, 2, 104, 105]))"
proof -
  have d: "decryptPreKeyWhisperMessage sample_cipher [0x01] ''+15550003333'' 1
             = Inr (Some sample_content_bytes)"
    by (simp add: decryptPreKeyWhisperMessage_def sample_cipher_def unpad_terminated)
  show ?thesis
    using d
    by (simp add: tryMessageAgain_def or_now_def startOfJune_def Let_def uint8array_of_def
        sample_decodeContent_def validateRetryContentMessage_def sample_content_def
        truthy_string_def truthy_uint32_def sample_content_bytes_def)
qed

text \<open>Witness for C8: one message before the cutoff, one after it.\<close>

theorem C8_tryMessageAgain_witness:
  "tryMessageAgain 1600000000000 sample_cipher sample_decodeContent ''+15550003333'' 1 [0x01]
        \<lparr>sent_at = Some 1490000000000, received_at = None\<rparr>
      = Inr (LegacyMessage
              \<lparr>re_source = ''+15550003333'', re_sourceDevice = 1,
               re_receivedAt = 1600000000000, re_timestamp = 1490000000000\<rparr>
              (Some [10, 4, 10, 2, 104, 105]))
   \<and> tryMessageAgain 1600000000000 sample_cipher sample_decodeContent ''+15550003333'' 1 [0x01]
        \<lparr>sent_at = Some 1500000000000, received_at = None\<rparr>
      = Inr (ContentMessage
              \<lparr>re_source = ''+15550003333'', re_sourceDevice = 1,
               re_receivedAt = 1600000000000, re_timestamp = 1500000000000\<rparr>
              (Some [10, 4, 10, 2, 104, 105]))"
proof -
  have d: "decryptPreKeyWhisperMessage sample_cipher [0x01] ''+15550003333'' 1
             = Inr (Some sample_content_bytes)"
    by (simp add: decryptPreKeyWhisperMessage_def sample_cipher_def unpad_terminated)
  have v: "retry_content_valid_spec sample_content"
    by (simp add: retry_content_valid_spec_def sample_content_def truthy_string_def)
  have dec: "sample_decodeContent (uint8array_of (Some sample_content_bytes)) = Some sample_content"
    by (simp add: sample_decodeContent_def uint8array_of_def)
  show ?thesis
    using C8_tryMessageAgain[OF d, of 1600000000000 sample_decodeContent
        "\<lparr>sent_at = Some 1490000000000, received_at = None\<rparr>"]
      C8_tryMessageAgain[OF d, of 1600000000000 sample_decodeContent
        "\<lparr>sent_at = Some 1500000000000, received_at = None\<rparr>"] v dec
    by (simp add: or_now_def sample_content_bytes_def)
qed

section \<open>Verified properties: conversion helpers\<close>

text \<open>
  Claim C9. For every input, each of the four helpers hands \<^verbatim>\<open>undefined\<close> back to its
  caller: the two Base64 helpers do post their job to the worker (the inner promise is
  evaluated), but its promise is dropped, and the two binary helpers drop the resolved
  promise of the conversion.
\<close>

theorem C9_helpers_return_undefined:
  "fst (stringToArrayBufferBase64 s w) = Undefined
   \<and> fst (arrayBufferToStringBase64 b w) = Undefined
   \<and> stringToArrayBuffer toArrayBuffer s = Undefined
   \<and> arrayBufferToString toBinary b = Undefined
   \<and> posted (snd (stringToArrayBufferBase64 s w))
       = posted w @ [(jobCounter w + 1, ''stringToArrayBufferBase64'', [ArgString s])]
   \<and> posted (snd (arrayBufferToStringBase64 b w))
       = posted w @ [(jobCounter w + 1, ''arrayBufferToStringBase64'', [ArgBytes b])]"
proof (intro conjI)
  show "fst (stringToArrayBufferBase64 s w) = Undefined"
    by (simp add: stringToArrayBufferBase64_def split_def)
  show "fst (arrayBufferToStringBase64 b w) = Undefined"
    by (simp add: arrayBufferToStringBase64_def split_def)
  show "stringToArrayBuffer toArrayBuffer s = Undefined"
    by (simp add: stringToArrayBuffer_def)
  show "arrayBufferToString toBinary b = Undefined"
    by (simp add: arrayBufferToString_def)
  show "posted (snd (stringToArrayBufferBase64 s w))
       = posted w @ [(jobCounter w + 1, ''stringToArrayBufferBase64'', [ArgString s])]"
    by (simp add: stringToArrayBufferBase64_def callWorker_def makeJob_def split_def Let_def)
  show "posted (snd (arrayBufferToStringBase64 b w))
       = posted w @ [(jobCounter w + 1, ''arrayBufferToStringBase64'', [ArgBytes b])]"
    by (simp add: arrayBufferToStringBase64_def callWorker_def makeJob_def split_def Let_def)
qed

section \<open>Verified properties: inbound requests and the envelope cache\<close>

lemma events_log_event [simp]: "events (log_event e r) = events r @ [e]"
  by (simp add: log_event_def)

lemma unprocessed_log_event [simp]: "unprocessed (log_event e r) = unprocessed r"
  by (simp add: log_event_def)

lemma write_fails_log_event [simp]: "write_fails (log_event e r) = write_fails r"
  by (simp add: log_event_def)

lemma blocked_log_event [simp]: "blocked (log_event e r) = blocked r"
  by (simp add: log_event_def)









lemma write_fails_afterLoad [simp]: "write_fails (afterLoad i r) = write_fails r"
  by (simp add: afterLoad_def removeUnprocessed_def updateUnprocessed_def Let_def log_event_def)

lemma write_fails_fold_afterLoad [simp]: "write_fails (fold afterLoad is r) = write_fails r"
  by (induction "is" arbitrary: r) simp_all














lemma write_fails_queueCached [simp]: "write_fails (queueCached prim i r) = write_fails r"
  by (simp add: queueCached_def removeUnprocessed_def Let_def log_event_def split: sum.splits)

lemma write_fails_fold_queueCached [simp]:
  "write_fails (fold (queueCached prim) js r) = write_fails r"
  by (induction js arbitrary: r) simp_all













section \<open>Verified properties: key fetch\<close>

lemma strace_log_s [simp]: "strace (log_s e w) = strace w @ [e]"
  by (simp add: log_s_def)

lemma sessions_log_s [simp]: "sessions (log_s e w) = sessions w"
  by (simp add: log_s_def)

lemma frame_log_s [simp]:
  "numbers (log_s e w) = numbers w" "numbersCompleted (log_s e w) = numbersCompleted w"
  "errors (log_s e w) = errors w" "successfulNumbers (log_s e w) = successfulNumbers w"
  by (simp_all add: log_s_def)

lemma strace_openSession [simp]: "strace (openSession number d w) = strace w"
  by (simp add: openSession_def)

lemma frame_openSession [simp]:
  "numbers (openSession n d w) = numbers w" "numbersCompleted (openSession n d w) = numbersCompleted w"
  "errors (openSession n d w) = errors w" "successfulNumbers (openSession n d w) = successfulNumbers w"
  by (simp_all add: openSession_def)

lemma strace_removeSession [simp]:
  "strace (removeSession number d w) = strace w @ [StoreRemoveSession number d]"
  by (simp add: removeSession_def)

lemma frame_removeSession [simp]:
  "numbers (removeSession n d w) = numbers w" "numbersCompleted (removeSession n d w) = numbersCompleted w"
  "errors (removeSession n d w) = errors w" "successfulNumbers (removeSession n d w) = successfulNumbers w"
  by (simp_all add: removeSession_def)

lemma sessions_removeSession:
  "(number, d) \<notin> fst ` set (sessions (removeSession number d w))"
  by (auto simp: removeSession_def)

lemma handleResult_trace:
  "\<exists>l. strace (snd (handleResult srv number upd devs w)) = strace w @ l
       \<and> filter is_ServerGetKeys l = []"
proof (induction devs arbitrary: w)
  case Nil
  show ?case by simp
next
  case (Cons dev devs)
  show ?case
  proof (cases "case upd of None \<Rightarrow> True | Some u \<Rightarrow> deviceId dev \<in> set u")
    case False
    then show ?thesis using Cons[of w] by simp
  next
    case True
    let ?w1 = "log_s (BuilderProcessPreKey number (deviceId dev)) w"
    show ?thesis
    proof (cases "processPreKey_reply srv number (deviceId dev)")
      case None
      obtain l where "strace (snd (handleResult srv number upd devs (openSession number (deviceId dev) ?w1)))
                        = strace (openSession number (deviceId dev) ?w1) @ l"
          "filter is_ServerGetKeys l = []"
        using Cons[of "openSession number (deviceId dev) ?w1"] by blast
      then show ?thesis using True None by (simp add: Let_def)
    next
      case (Some re)
      obtain l where "strace (snd (handleResult srv number upd devs ?w1)) = strace ?w1 @ l"
          "filter is_ServerGetKeys l = []"
        using Cons[of ?w1] by blast
      then show ?thesis using True Some by (simp add: Let_def)
    qed
  qed
qed

lemma handleResult_frame:
  "numbers (snd (handleResult srv number upd devs w)) = numbers w
   \<and> numbersCompleted (snd (handleResult srv number upd devs w)) = numbersCompleted w
   \<and> errors (snd (handleResult srv number upd devs w)) = errors w
   \<and> successfulNumbers (snd (handleResult srv number upd devs w)) = successfulNumbers w"
  by (induction devs arbitrary: w) (auto simp: Let_def split: option.splits)

lemma fetchDevice_404:
  assumes "getKeys_reply srv number (Some device) = Inl (HTTPError 404 resp)"
  shows "fetchDevice srv number upd device w =
           (if device \<noteq> 1
            then (None, removeSession number device (log_s (ServerGetKeys number (Some device)) w))
            else (Some (UnregisteredUserError number (HTTPError 404 resp)),
                  log_s (ServerGetKeys number (Some device)) w))"
  using assms by (simp add: fetchDevice_def Let_def removeDeviceIdsForNumber_def)

lemma fetchDevice_trace:
  "\<exists>l. strace (snd (fetchDevice srv number upd device w))
          = strace w @ ServerGetKeys number (Some device) # l
       \<and> filter is_ServerGetKeys l = []"
proof -
  let ?w1 = "log_s (ServerGetKeys number (Some device)) w"
  show ?thesis
  proof (cases "getKeys_reply srv number (Some device)")
    case (Inl e)
    then show ?thesis
      by (cases e) (simp_all add: fetchDevice_def Let_def removeDeviceIdsForNumber_def)
  next
    case (Inr response)
    obtain res w2 where h: "handleResult srv number (Some upd) (devices response) ?w1 = (res, w2)"
      by (cases "handleResult srv number (Some upd) (devices response) ?w1")
    obtain l where l: "strace w2 = strace ?w1 @ l" "filter is_ServerGetKeys l = []"
      using handleResult_trace[of srv number "Some upd" "devices response" ?w1] h by auto
    show ?thesis
    proof (cases res)
      case None
      then show ?thesis using Inr h l by (simp add: fetchDevice_def Let_def)
    next
      case (Some e)
      then show ?thesis using Inr h l
        by (cases e) (simp_all add: fetchDevice_def Let_def removeDeviceIdsForNumber_def)
    qed
  qed
qed

lemma getKeys_serial_append:
  "getKeys_serial srv number upd (pre @ rest) w =
     (case getKeys_serial srv number upd pre w of
        (None, w') \<Rightarrow> getKeys_serial srv number upd rest w'
      | (Some e, w') \<Rightarrow> (Some e, w'))"
proof (induction pre arbitrary: w)
  case Nil
  show ?case by simp
next
  case (Cons d pre)
  obtain res w1 where f: "fetchDevice srv number upd d w = (res, w1)"
    by (cases "fetchDevice srv number upd d w")
  show ?case
  proof (cases res)
    case None
    then show ?thesis using f Cons[of w1] by simp
  next
    case (Some e)
    then show ?thesis using f by simp
  qed
qed

lemma getKeys_serial_trace:
  "\<exists>l k. k \<le> length ds
       \<and> strace (snd (getKeys_serial srv number upd ds w)) = strace w @ l
       \<and> filter is_ServerGetKeys l = map (\<lambda>d. ServerGetKeys number (Some d)) (take k ds)
       \<and> (fst (getKeys_serial srv number upd ds w) = None \<longrightarrow> k = length ds)"
proof (induction ds arbitrary: w)
  case Nil
  show ?case by simp
next
  case (Cons d ds)
  obtain res w1 where f: "fetchDevice srv number upd d w = (res, w1)"
    by (cases "fetchDevice srv number upd d w")
  have "\<exists>l1. strace w1 = strace w @ ServerGetKeys number (Some d) # l1
           \<and> filter is_ServerGetKeys l1 = []"
    using fetchDevice_trace[of srv number upd d w] f by simp
  then obtain l1 where l1: "strace w1 = strace w @ ServerGetKeys number (Some d) # l1
           \<and> filter is_ServerGetKeys l1 = []"
    by (rule exE)
  show ?case
  proof (cases res)
    case (Some e)
    have g: "getKeys_serial srv number upd (d # ds) w = (Some e, w1)"
      using f Some by simp
    have "Suc 0 \<le> length (d # ds)
       \<and> strace (snd (getKeys_serial srv number upd (d # ds) w))
            = strace w @ (ServerGetKeys number (Some d) # l1)
       \<and> filter is_ServerGetKeys (ServerGetKeys number (Some d) # l1)
            = map (\<lambda>d. ServerGetKeys number (Some d)) (take (Suc 0) (d # ds))
       \<and> (fst (getKeys_serial srv number upd (d # ds) w) = None \<longrightarrow> Suc 0 = length (d # ds))"
      unfolding g using l1 by simp
    then show ?thesis
      by (intro exI)
  next
    case None
    have g: "getKeys_serial srv number upd (d # ds) w = getKeys_serial srv number upd ds w1"
      using f None by simp
    from Cons[of w1] obtain l where "\<exists>k. k \<le> length ds
        \<and> strace (snd (getKeys_serial srv number upd ds w1)) = strace w1 @ l
        \<and> filter is_ServerGetKeys l = map (\<lambda>d. ServerGetKeys number (Some d)) (take k ds)
        \<and> (fst (getKeys_serial srv number upd ds w1) = None \<longrightarrow> k = length ds)"
      by (rule exE)
    then obtain k where ih: "k \<le> length ds
        \<and> strace (snd (getKeys_serial srv number upd ds w1)) = strace w1 @ l
        \<and> filter is_ServerGetKeys l = map (\<lambda>d. ServerGetKeys number (Some d)) (take k ds)
        \<and> (fst (getKeys_serial srv number upd ds w1) = None \<longrightarrow> k = length ds)"
      by (rule exE)
    have 1: "Suc k \<le> length (d # ds)" using ih by simp
    have 2: "strace (snd (getKeys_serial srv number upd ds w1))
               = strace w @ (ServerGetKeys number (Some d) # l1 @ l)"
      using ih l1 by simp
    have 3: "filter is_ServerGetKeys (ServerGetKeys number (Some d) # l1 @ l)
               = map (\<lambda>d. ServerGetKeys number (Some d)) (take (Suc k) (d # ds))"
      using l1 ih by simp
    have 4: "fst (getKeys_serial srv number upd ds w1) = None \<longrightarrow> Suc k = length (d # ds)"
      using ih by simp
    have "Suc k \<le> length (d # ds)
       \<and> strace (snd (getKeys_serial srv number upd (d # ds) w))
            = strace w @ (ServerGetKeys number (Some d) # l1 @ l)
       \<and> filter is_ServerGetKeys (ServerGetKeys number (Some d) # l1 @ l)
            = map (\<lambda>d. ServerGetKeys number (Some d)) (take (Suc k) (d # ds))
       \<and> (fst (getKeys_serial srv number upd (d # ds) w) = None \<longrightarrow> Suc k = length (d # ds))"
      unfolding g using 1 2 3 4 by (intro conjI)
    then show ?thesis
      by (intro exI)
  qed
qed

text \<open>
  Claim C7. With an explicit list \<^verbatim>\<open>updateDevices\<close>, \<^verbatim>\<open>getKeysForNumber\<close> asks the
  server for one device at a time, in the order of the list, and stops asking once the
  chain is rejected. When the devices before one have been fetched and the server
  answers that one with 404: for a device other than 1 its session is removed from the
  Store and the chain goes on with the devices after it; for device 1 the chain is
  rejected with \<^verbatim>\<open>UnregisteredUserError\<close> for the number and no later device is fetched.
\<close>

theorem C7_getKeysForNumber_404:
  assumes "updateDevices = pre @ device # later"
      and "getKeys_serial srv number updateDevices pre w = (None, w1)"
      and "getKeys_reply srv number (Some device) = Inl (HTTPError 404 resp)"
  shows "getKeysForNumber srv number (Some updateDevices) w =
           (if device \<noteq> 1
            then getKeys_serial srv number updateDevices later
                   (removeSession number device (log_s (ServerGetKeys number (Some device)) w1))
            else (Some (UnregisteredUserError number (HTTPError 404 resp)),
                  log_s (ServerGetKeys number (Some device)) w1))
         \<and> (number, device) \<notin> fst ` set (sessions
               (removeSession number device (log_s (ServerGetKeys number (Some device)) w1)))
         \<and> (\<exists>l k. k \<le> length updateDevices
               \<and> strace (snd (getKeysForNumber srv number (Some updateDevices) w)) = strace w @ l
               \<and> filter is_ServerGetKeys l
                   = map (\<lambda>d. ServerGetKeys number (Some d)) (take k updateDevices)
               \<and> (fst (getKeysForNumber srv number (Some updateDevices) w) = None
                    \<longrightarrow> k = length updateDevices))"
proof (intro conjI)
  show "getKeysForNumber srv number (Some updateDevices) w =
           (if device \<noteq> 1
            then getKeys_serial srv number updateDevices later
                   (removeSession number device (log_s (ServerGetKeys number (Some device)) w1))
            else (Some (UnregisteredUserError number (HTTPError 404 resp)),
                  log_s (ServerGetKeys number (Some device)) w1))"
  proof -
    have "getKeys_serial srv number updateDevices (pre @ device # later) w
            = getKeys_serial srv number updateDevices (device # later) w1"
      using assms(2) by (simp add: getKeys_serial_append)
    also have "\<dots> = (if device \<noteq> 1
            then getKeys_serial srv number updateDevices later
                   (removeSession number device (log_s (ServerGetKeys number (Some device)) w1))
            else (Some (UnregisteredUserError number (HTTPError 404 resp)),
                  log_s (ServerGetKeys number (Some device)) w1))"
      using fetchDevice_404[OF assms(3), of updateDevices w1] by simp
    finally show ?thesis
      unfolding getKeysForNumber_def using assms(1) by simp
  qed
  show "(number, device) \<notin> fst ` set (sessions
               (removeSession number device (log_s (ServerGetKeys number (Some device)) w1)))"
    by (rule sessions_removeSession)
  show "\<exists>l k. k \<le> length updateDevices
               \<and> strace (snd (getKeysForNumber srv number (Some updateDevices) w)) = strace w @ l
               \<and> filter is_ServerGetKeys l
                   = map (\<lambda>d. ServerGetKeys number (Some d)) (take k updateDevices)
               \<and> (fst (getKeysForNumber srv number (Some updateDevices) w) = None
                    \<longrightarrow> k = length updateDevices)"
    using getKeys_serial_trace[of updateDevices srv number updateDevices w]
    by (simp add: getKeysForNumber_def)
qed

section \<open>Verified properties: stale devices\<close>

lemma append_trace_simps [simp]:
  "strace (append_trace es w) = strace w @ es"
  "sessions (append_trace es w) = sessions w"
  "numbers (append_trace es w) = numbers w"
  "numbersCompleted (append_trace es w) = numbersCompleted w"
  "errors (append_trace es w) = errors w"
  "successfulNumbers (append_trace es w) = successfulNumbers w"
  by (simp_all add: append_trace_def)

lemma getDeviceIds_append_trace [simp]: "getDeviceIds n (append_trace es w) = getDeviceIds n w"
  by (simp add: getDeviceIds_def)

lemma getDeviceIds_log_s [simp]: "getDeviceIds n (log_s e w) = getDeviceIds n w"
  by (simp add: getDeviceIds_def)

lemma encryptAll_ok:
  assumes "\<forall>d\<in>set ids. encrypt_reply srv number d = None"
  shows "encryptAll srv number ids w = (None, append_trace (map (CipherEncrypt number) ids) w)"
  using assms
proof (induction ids arbitrary: w)
  case Nil
  show ?case by (simp add: append_trace_def)
next
  case (Cons d ids)
  have "encryptAll srv number ids (log_s (CipherEncrypt number d) w)
          = (None, append_trace (map (CipherEncrypt number) ids) (log_s (CipherEncrypt number d) w))"
    using Cons by simp
  then show ?case
    using Cons.prems by (simp add: append_trace_def log_s_def)
qed

lemma close_frame [simp]:
  "strace (closeOpenSessionForDevice n d w) = strace w @ [CipherCloseOpenSession n d]"
  "numbers (closeOpenSessionForDevice n d w) = numbers w"
  "numbersCompleted (closeOpenSessionForDevice n d w) = numbersCompleted w"
  "errors (closeOpenSessionForDevice n d w) = errors w"
  "successfulNumbers (closeOpenSessionForDevice n d w) = successfulNumbers w"
  by (simp_all add: closeOpenSessionForDevice_def)

lemma getDeviceIds_close [simp]:
  "getDeviceIds n (closeOpenSessionForDevice m d w) = getDeviceIds n w"
proof -
  have "map (\<lambda>s. snd (fst s)) (filter (\<lambda>s. fst (fst s) = n)
            (map (\<lambda>s. if fst s = (m, d) then (fst s, False) else s) xs))
          = map (\<lambda>s. snd (fst s)) (filter (\<lambda>s. fst (fst s) = n) xs)" for xs :: "((string \<times> nat) \<times> bool) list"
    by (induction xs) auto
  then show ?thesis
    by (simp add: getDeviceIds_def closeOpenSessionForDevice_def log_s_def)
qed

lemma closeStale_ok:
  assumes "set stale \<subseteq> set ids"
  shows "\<exists>w2. closeStale number ids stale w = (None, w2)
           \<and> strace w2 = strace w @ map (CipherCloseOpenSession number) stale
           \<and> numbers w2 = numbers w \<and> numbersCompleted w2 = numbersCompleted w
           \<and> errors w2 = errors w \<and> successfulNumbers w2 = successfulNumbers w
           \<and> getDeviceIds number w2 = getDeviceIds number w"
  using assms
proof (induction stale arbitrary: w)
  case Nil
  show ?case by simp
next
  case (Cons d stale)
  let ?w1 = "closeOpenSessionForDevice number d w"
  have "set stale \<subseteq> set ids" and d: "d \<in> set ids" using Cons.prems by simp_all
  then have "\<exists>w2. closeStale number ids stale ?w1 = (None, w2)
           \<and> strace w2 = strace ?w1 @ map (CipherCloseOpenSession number) stale
           \<and> numbers w2 = numbers ?w1 \<and> numbersCompleted w2 = numbersCompleted ?w1
           \<and> errors w2 = errors ?w1 \<and> successfulNumbers w2 = successfulNumbers ?w1
           \<and> getDeviceIds number w2 = getDeviceIds number ?w1"
    using Cons.IH[of ?w1] by simp
  then obtain w2 where w2: "closeStale number ids stale ?w1 = (None, w2)
           \<and> strace w2 = strace ?w1 @ map (CipherCloseOpenSession number) stale
           \<and> numbers w2 = numbers ?w1 \<and> numbersCompleted w2 = numbersCompleted ?w1
           \<and> errors w2 = errors ?w1 \<and> successfulNumbers w2 = successfulNumbers ?w1
           \<and> getDeviceIds number w2 = getDeviceIds number ?w1"
    by (rule exE)
  have "closeStale number ids (d # stale) w = (None, w2)
           \<and> strace w2 = strace w @ map (CipherCloseOpenSession number) (d # stale)
           \<and> numbers w2 = numbers w \<and> numbersCompleted w2 = numbersCompleted w
           \<and> errors w2 = errors w \<and> successfulNumbers w2 = successfulNumbers w
           \<and> getDeviceIds number w2 = getDeviceIds number w"
    using w2 d by simp
  then show ?case by (intro exI)
qed

lemma getDeviceIds_openSession:
  "getDeviceIds n w \<noteq> [] \<Longrightarrow> getDeviceIds n (openSession m d w) \<noteq> []"
proof (cases "n = m")
  case True
  then show ?thesis by (simp add: getDeviceIds_def openSession_def)
next
  case False
  have "filter (\<lambda>s. fst (fst s) = n) (filter (\<lambda>s. fst s \<noteq> (m, d)) xs)
          = filter (\<lambda>s. fst (fst s) = n) xs" for xs :: "((string \<times> nat) \<times> bool) list"
    using False by (induction xs) auto
  then have "getDeviceIds n (openSession m d w) = getDeviceIds n w"
    using False by (simp add: getDeviceIds_def openSession_def del: filter_filter)
  then show "getDeviceIds n w \<noteq> [] \<Longrightarrow> ?thesis" by simp
qed

lemma handleResult_ok:
  assumes "list_all (\<lambda>dev. processPreKey_reply srv number (deviceId dev) = None) devs"
  shows "fst (handleResult srv number upd devs w) = None
         \<and> (getDeviceIds n w \<noteq> [] \<longrightarrow> getDeviceIds n (snd (handleResult srv number upd devs w)) \<noteq> [])"
  using assms
proof (induction devs arbitrary: w)
  case Nil
  show ?case by simp
next
  case (Cons dev devs)
  have ok: "processPreKey_reply srv number (deviceId dev) = None"
    and rest: "list_all (\<lambda>dev. processPreKey_reply srv number (deviceId dev) = None) devs"
    using Cons.prems by simp_all
  show ?case
  proof (cases "case upd of None \<Rightarrow> True | Some u \<Rightarrow> deviceId dev \<in> set u")
    case False
    then show ?thesis using Cons.IH[OF rest, of w] by simp
  next
    case True
    let ?w1 = "openSession number (deviceId dev) (log_s (BuilderProcessPreKey number (deviceId dev)) w)"
    have "getDeviceIds n w \<noteq> [] \<longrightarrow> getDeviceIds n ?w1 \<noteq> []"
      using getDeviceIds_openSession[of n "log_s (BuilderProcessPreKey number (deviceId dev)) w"
          number "deviceId dev"] by simp
    then show ?thesis
      using True ok Cons.IH[OF rest, of ?w1] by (simp add: Let_def)
  qed
qed

lemma fetchDevice_ok:
  assumes "keys_available srv number d"
  shows "fst (fetchDevice srv number upd d w) = None
         \<and> (getDeviceIds n w \<noteq> [] \<longrightarrow> getDeviceIds n (snd (fetchDevice srv number upd d w)) \<noteq> [])"
proof (cases "getKeys_reply srv number (Some d)")
  case (Inl e)
  then show ?thesis using assms by (simp add: keys_available_def)
next
  case (Inr response)
  let ?w1 = "log_s (ServerGetKeys number (Some d)) w"
  have la: "list_all (\<lambda>dev. processPreKey_reply srv number (deviceId dev) = None) (devices response)"
    using assms Inr by (simp add: keys_available_def)
  obtain res w2 where h: "handleResult srv number (Some upd) (devices response) ?w1 = (res, w2)"
    by (cases "handleResult srv number (Some upd) (devices response) ?w1")
  have "res = None \<and> (getDeviceIds n ?w1 \<noteq> [] \<longrightarrow> getDeviceIds n w2 \<noteq> [])"
    using handleResult_ok[OF la, of "Some upd" ?w1 n] h by simp
  then show ?thesis
    using Inr h by (simp add: fetchDevice_def Let_def)
qed

lemma getKeys_serial_ok:
  assumes "\<forall>d\<in>set ds. keys_available srv number d"
  shows "fst (getKeys_serial srv number upd ds w) = None
         \<and> (getDeviceIds n w \<noteq> [] \<longrightarrow> getDeviceIds n (snd (getKeys_serial srv number upd ds w)) \<noteq> [])"
  using assms
proof (induction ds arbitrary: w)
  case Nil
  show ?case by simp
next
  case (Cons d ds)
  obtain res w1 where f: "fetchDevice srv number upd d w = (res, w1)"
    by (cases "fetchDevice srv number upd d w")
  have "keys_available srv number d" using Cons.prems by simp
  then have r: "res = None \<and> (getDeviceIds n w \<noteq> [] \<longrightarrow> getDeviceIds n w1 \<noteq> [])"
    using fetchDevice_ok[of srv number d upd w n] f by simp
  have "\<forall>d\<in>set ds. keys_available srv number d" using Cons.prems by simp
  then have "fst (getKeys_serial srv number upd ds w1) = None
         \<and> (getDeviceIds n w1 \<noteq> [] \<longrightarrow> getDeviceIds n (snd (getKeys_serial srv number upd ds w1)) \<noteq> [])"
    by (rule Cons.IH)
  then show ?case using f r by simp
qed

lemma fetchDevice_frame:
  "numbers (snd (fetchDevice srv number upd d w)) = numbers w
   \<and> numbersCompleted (snd (fetchDevice srv number upd d w)) = numbersCompleted w
   \<and> errors (snd (fetchDevice srv number upd d w)) = errors w
   \<and> successfulNumbers (snd (fetchDevice srv number upd d w)) = successfulNumbers w"
proof -
  let ?w1 = "log_s (ServerGetKeys number (Some d)) w"
  show ?thesis
  proof (cases "getKeys_reply srv number (Some d)")
    case (Inl e)
    then show ?thesis
      by (cases e) (simp_all add: fetchDevice_def Let_def removeDeviceIdsForNumber_def)
  next
    case (Inr response)
    obtain res w2 where h: "handleResult srv number (Some upd) (devices response) ?w1 = (res, w2)"
      by (cases "handleResult srv number (Some upd) (devices response) ?w1")
    have fr: "numbers w2 = numbers w \<and> numbersCompleted w2 = numbersCompleted w
       \<and> errors w2 = errors w \<and> successfulNumbers w2 = successfulNumbers w"
      using handleResult_frame[of srv number "Some upd" "devices response" ?w1] h by simp
    show ?thesis
    proof (cases res)
      case None
      then show ?thesis using Inr h fr by (simp add: fetchDevice_def Let_def)
    next
      case (Some e)
      then show ?thesis using Inr h fr
        by (cases e) (simp_all add: fetchDevice_def Let_def removeDeviceIdsForNumber_def)
    qed
  qed
qed

lemma getKeys_serial_frame:
  "numbers (snd (getKeys_serial srv number upd ds w)) = numbers w
   \<and> numbersCompleted (snd (getKeys_serial srv number upd ds w)) = numbersCompleted w
   \<and> errors (snd (getKeys_serial srv number upd ds w)) = errors w
   \<and> successfulNumbers (snd (getKeys_serial srv number upd ds w)) = successfulNumbers w"
proof (induction ds arbitrary: w)
  case Nil
  show ?case by simp
next
  case (Cons d ds)
  obtain res w1 where f: "fetchDevice srv number upd d w = (res, w1)"
    by (cases "fetchDevice srv number upd d w")
  have fr: "numbers w1 = numbers w \<and> numbersCompleted w1 = numbersCompleted w
       \<and> errors w1 = errors w \<and> successfulNumbers w1 = successfulNumbers w"
    using fetchDevice_frame[of srv number upd d w] f by simp
  show ?case
  proof (cases res)
    case None
    then show ?thesis using f fr Cons[of w1] by simp
  next
    case (Some e)
    then show ?thesis using f fr by simp
  qed
qed

lemma registerError_http:
  assumes "code \<noteq> 404"
  shows "errors (registerError number reason (Some (HTTPError code r)) w)
           = errors w @ [(number, reason, OutgoingMessageError number (Some (HTTPError code r)))]
       \<and> numbersCompleted (registerError number reason (Some (HTTPError code r)) w)
           = numbersCompleted w + 1
       \<and> successfulNumbers (registerError number reason (Some (HTTPError code r)) w)
           = successfulNumbers w
       \<and> numbers (registerError number reason (Some (HTTPError code r)) w) = numbers w
       \<and> strace (registerError number reason (Some (HTTPError code r)) w)
           = strace w
             @ [RegisterError number reason (OutgoingMessageError number (Some (HTTPError code r)))]
             @ (if length (numbers w) \<le> numbersCompleted w + 1
                then [Callback (successfulNumbers w) (length (errors w) + 1)] else [])"
  using assms by (simp add: registerError_def numberCompleted_def Let_def log_s_def)

lemma doSendMessage_retry_limit:
  assumes enc: "\<forall>d\<in>set ids. encrypt_reply srv number d = None"
      and again: "code = 410 \<or> code = 409"
  shows "doSendMessage srv (SendFailed (HTTPError code r) # rest) number ids False w =
           (Fulfilled, rest,
            registerError number ''Hit retry limit attempting to reload device list''
              (Some (HTTPError code r))
              (log_s (ServerSendMessages number ids)
                 (append_trace (map (CipherEncrypt number) ids) w)))"
  using again
  by (subst doSendMessage.simps)
     (auto simp: encryptAll_ok[OF enc] transmitMessage_error_def Let_def)

lemma doSendMessage_stale:
  assumes enc: "\<forall>d\<in>set ids. encrypt_reply srv number d = None"
      and close: "closeStale number ids (staleDevices r)
                    (log_s (ServerSendMessages number ids)
                       (append_trace (map (CipherEncrypt number) ids) w)) = (None, w2)"
      and keys: "getKeysForNumber srv number (Some (staleDevices r)) w2 = (None, w3)"
  shows "doSendMessage srv (SendFailed (HTTPError 410 r) # script') number ids True w =
           reloadDevicesAndSend srv script' number False w3"
  by (subst doSendMessage.simps)
     (simp add: encryptAll_ok[OF enc] transmitMessage_error_def Let_def close keys)

text \<open>
  Claim C6. A first attempt (\<^verbatim>\<open>recurse\<close> true) whose devices all encrypt and that the
  server answers with 410: \<^verbatim>\<open>doSendMessage\<close> closes the session of each reported stale
  device, asks the server for the keys of exactly those devices, one by one, and goes on
  as \<^verbatim>\<open>reloadDevicesAndSend\<close> with \<^verbatim>\<open>recurse\<close> false. When the server answers that
  second attempt with 410 or 409, the error is registered with the reason "Hit retry
  limit attempting to reload device list", the number is completed, and no further reply
  of the server is used. The stale devices are devices of the attempt, their key
  requests succeed, and the Store has a session record for the number.
\<close>

theorem C6_stale_devices_retry:
  assumes enc: "\<forall>d. encrypt_reply srv number d = None"
      and keys: "\<forall>d\<in>set (staleDevices resp). keys_available srv number d"
      and stale: "set (staleDevices resp) \<subseteq> set deviceIds"
      and known: "getDeviceIds number w \<noteq> []"
      and again: "code = 410 \<or> code = 409"
  shows "\<exists>w3 w' keylog ids2.
           (\<forall>script'. doSendMessage srv (SendFailed (HTTPError 410 resp) # script') number
                         deviceIds True w
                       = reloadDevicesAndSend srv script' number False w3)
         \<and> strace w3 = strace w @ map (CipherEncrypt number) deviceIds
                          @ [ServerSendMessages number deviceIds]
                          @ map (CipherCloseOpenSession number) (staleDevices resp) @ keylog
         \<and> filter is_ServerGetKeys keylog
             = map (\<lambda>d. ServerGetKeys number (Some d)) (staleDevices resp)
         \<and> doSendMessage srv (SendFailed (HTTPError 410 resp) # SendFailed (HTTPError code resp2) # rest)
              number deviceIds True w = (Fulfilled, rest, w')
         \<and> ids2 = getDeviceIds number w3 \<and> ids2 \<noteq> []
         \<and> strace w' = strace w3 @ [StoreGetDeviceIds number] @ map (CipherEncrypt number) ids2
                          @ [ServerSendMessages number ids2,
                             RegisterError number ''Hit retry limit attempting to reload device list''
                               (OutgoingMessageError number (Some (HTTPError code resp2)))]
                          @ (if length (numbers w) \<le> numbersCompleted w + 1
                             then [Callback (successfulNumbers w) (length (errors w) + 1)] else [])
         \<and> errors w' = errors w @ [(number, ''Hit retry limit attempting to reload device list'',
                                     OutgoingMessageError number (Some (HTTPError code resp2)))]
         \<and> numbersCompleted w' = numbersCompleted w + 1
         \<and> successfulNumbers w' = successfulNumbers w"
proof -
  let ?reason = "''Hit retry limit attempting to reload device list''"
  let ?w1 = "log_s (ServerSendMessages number deviceIds)
               (append_trace (map (CipherEncrypt number) deviceIds) w)"
  have enc1: "\<forall>d\<in>set deviceIds. encrypt_reply srv number d = None"
    using enc by simp
  obtain w2 where w2: "closeStale number deviceIds (staleDevices resp) ?w1 = (None, w2)
           \<and> strace w2 = strace ?w1 @ map (CipherCloseOpenSession number) (staleDevices resp)
           \<and> numbers w2 = numbers ?w1 \<and> numbersCompleted w2 = numbersCompleted ?w1
           \<and> errors w2 = errors ?w1 \<and> successfulNumbers w2 = successfulNumbers ?w1
           \<and> getDeviceIds number w2 = getDeviceIds number ?w1"
    using closeStale_ok[OF stale, of number ?w1] by (rule exE)
  define w3 where "w3 = snd (getKeys_serial srv number (staleDevices resp) (staleDevices resp) w2)"
  have ok: "fst (getKeys_serial srv number (staleDevices resp) (staleDevices resp) w2) = None
         \<and> (getDeviceIds number w2 \<noteq> [] \<longrightarrow> getDeviceIds number w3 \<noteq> [])"
    unfolding w3_def by (rule getKeys_serial_ok[OF keys])
  have gk: "getKeysForNumber srv number (Some (staleDevices resp)) w2 = (None, w3)"
    using ok by (simp add: getKeysForNumber_def w3_def prod_eq_iff)
  have fr3: "numbers w3 = numbers w \<and> numbersCompleted w3 = numbersCompleted w
       \<and> errors w3 = errors w \<and> successfulNumbers w3 = successfulNumbers w"
    using getKeys_serial_frame[of srv number "staleDevices resp" "staleDevices resp" w2] w2
    by (simp add: w3_def)
  have "\<exists>l k. k \<le> length (staleDevices resp)
       \<and> strace w3 = strace w2 @ l
       \<and> filter is_ServerGetKeys l
           = map (\<lambda>d. ServerGetKeys number (Some d)) (take k (staleDevices resp))
       \<and> (fst (getKeys_serial srv number (staleDevices resp) (staleDevices resp) w2) = None
            \<longrightarrow> k = length (staleDevices resp))"
    unfolding w3_def by (rule getKeys_serial_trace)
  then obtain keylog where "\<exists>k. k \<le> length (staleDevices resp)
       \<and> strace w3 = strace w2 @ keylog
       \<and> filter is_ServerGetKeys keylog
           = map (\<lambda>d. ServerGetKeys number (Some d)) (take k (staleDevices resp))
       \<and> (fst (getKeys_serial srv number (staleDevices resp) (staleDevices resp) w2) = None
            \<longrightarrow> k = length (staleDevices resp))"
    by (rule exE)
  then obtain k where k: "k \<le> length (staleDevices resp)
       \<and> strace w3 = strace w2 @ keylog
       \<and> filter is_ServerGetKeys keylog
           = map (\<lambda>d. ServerGetKeys number (Some d)) (take k (staleDevices resp))
       \<and> (fst (getKeys_serial srv number (staleDevices resp) (staleDevices resp) w2) = None
            \<longrightarrow> k = length (staleDevices resp))"
    by (rule exE)
  have kl: "filter is_ServerGetKeys keylog
              = map (\<lambda>d. ServerGetKeys number (Some d)) (staleDevices resp)"
    using k ok by simp
  have tr3: "strace w3 = strace w @ map (CipherEncrypt number) deviceIds
                          @ [ServerSendMessages number deviceIds]
                          @ map (CipherCloseOpenSession number) (staleDevices resp) @ keylog"
    using k w2 by simp
  have first: "doSendMessage srv (SendFailed (HTTPError 410 resp) # script') number deviceIds True w
                 = reloadDevicesAndSend srv script' number False w3" for script'
    using doSendMessage_stale[OF enc1 _ gk] w2 by simp
  define ids2 where "ids2 = getDeviceIds number w3"
  have ne: "ids2 \<noteq> []"
    using ok w2 known by (simp add: ids2_def)
  have enc2: "\<forall>d\<in>set ids2. encrypt_reply srv number d = None"
    using enc by simp
  let ?w5 = "log_s (ServerSendMessages number ids2)
               (append_trace (map (CipherEncrypt number) ids2) (log_s (StoreGetDeviceIds number) w3))"
  define w' where "w' = registerError number ?reason (Some (HTTPError code resp2)) ?w5"
  have second: "reloadDevicesAndSend srv (SendFailed (HTTPError code resp2) # rest) number False w3
                  = (Fulfilled, rest, w')"
    using ne doSendMessage_retry_limit[OF enc2 again, of resp2 rest "log_s (StoreGetDeviceIds number) w3"]
    by (subst reloadDevicesAndSend.simps) (simp add: Let_def ids2_def w'_def)
  have whole: "doSendMessage srv (SendFailed (HTTPError 410 resp) # SendFailed (HTTPError code resp2) # rest)
              number deviceIds True w = (Fulfilled, rest, w')"
    using first second by simp
  have c: "code \<noteq> 404" using again by auto
  have fields: "errors w' = errors ?w5 @ [(number, ?reason, OutgoingMessageError number (Some (HTTPError code resp2)))]
       \<and> numbersCompleted w' = numbersCompleted ?w5 + 1
       \<and> successfulNumbers w' = successfulNumbers ?w5
       \<and> numbers w' = numbers ?w5
       \<and> strace w' = strace ?w5
             @ [RegisterError number ?reason (OutgoingMessageError number (Some (HTTPError code resp2)))]
             @ (if length (numbers ?w5) \<le> numbersCompleted ?w5 + 1
                then [Callback (successfulNumbers ?w5) (length (errors ?w5) + 1)] else [])"
    unfolding w'_def by (rule registerError_http[OF c])
  have tr': "strace w' = strace w3 @ [StoreGetDeviceIds number] @ map (CipherEncrypt number) ids2
                          @ [ServerSendMessages number ids2,
                             RegisterError number ?reason
                               (OutgoingMessageError number (Some (HTTPError code resp2)))]
                          @ (if length (numbers w) \<le> numbersCompleted w + 1
                             then [Callback (successfulNumbers w) (length (errors w) + 1)] else [])"
    using fields fr3 by simp
  have er': "errors w' = errors w @ [(number, ?reason,
                                     OutgoingMessageError number (Some (HTTPError code resp2)))]"
    using fields fr3 by simp
  have nc': "numbersCompleted w' = numbersCompleted w + 1"
    using fields fr3 by simp
  have sn': "successfulNumbers w' = successfulNumbers w"
    using fields fr3 by simp
  have "(\<forall>script'. doSendMessage srv (SendFailed (HTTPError 410 resp) # script') number
                         deviceIds True w
                       = reloadDevicesAndSend srv script' number False w3)
         \<and> strace w3 = strace w @ map (CipherEncrypt number) deviceIds
                          @ [ServerSendMessages number deviceIds]
                          @ map (CipherCloseOpenSession number) (staleDevices resp) @ keylog
         \<and> filter is_ServerGetKeys keylog
             = map (\<lambda>d. ServerGetKeys number (Some d)) (staleDevices resp)
         \<and> doSendMessage srv (SendFailed (HTTPError 410 resp) # SendFailed (HTTPError code resp2) # rest)
              number deviceIds True w = (Fulfilled, rest, w')
         \<and> ids2 = getDeviceIds number w3 \<and> ids2 \<noteq> []
         \<and> strace w' = strace w3 @ [StoreGetDeviceIds number] @ map (CipherEncrypt number) ids2
                          @ [ServerSendMessages number ids2,
                             RegisterError number ?reason
                               (OutgoingMessageError number (Some (HTTPError code resp2)))]
                          @ (if length (numbers w) \<le> numbersCompleted w + 1
                             then [Callback (successfulNumbers w) (length (errors w) + 1)] else [])
         \<and> errors w' = errors w @ [(number, ?reason,
                                     OutgoingMessageError number (Some (HTTPError code resp2)))]
         \<and> numbersCompleted w' = numbersCompleted w + 1
         \<and> successfulNumbers w' = successfulNumbers w"
    using first tr3 kl whole ne tr' er' nc' sn' ids2_def by (intro conjI allI)
  then show ?thesis
    by (intro exI)
qed

text \<open>
  Witness for C7: devices 3, 2, 4 with a 404 for device 2 (removed, 4 still fetched), and
  devices 1, 2 with a 404 for device 1 (fatal, 2 never fetched).
\<close>

theorem C7_getKeysForNumber_404_witness:
  "getKeysForNumber (sample_service [2]) ''+15550001111'' (Some [3, 2, 4])
        (sample_sender [((''+15550001111'', 2), True)] [''+15550001111''])
     = (None,
        \<lparr>sessions = [((''+15550001111'', 3), True), ((''+15550001111'', 4), True)],
         numbers = [''+15550001111''], numbersCompleted = 0, errors = [],
         successfulNumbers = [],
         strace = [ServerGetKeys ''+15550001111'' (Some 3),
                   BuilderProcessPreKey ''+15550001111'' 3,
                   ServerGetKeys ''+15550001111'' (Some 2),
                   StoreRemoveSession ''+15550001111'' 2,
                   ServerGetKeys ''+15550001111'' (Some 4),
                   BuilderProcessPreKey ''+15550001111'' 4]\<rparr>)
   \<and> getKeysForNumber (sample_service [1]) ''+15550001111'' (Some [1, 2])
        (sample_sender [((''+15550001111'', 1), True)] [''+15550001111''])
     = (Some (UnregisteredUserError ''+15550001111'' (HTTPError 404 no_devices)),
        \<lparr>sessions = [((''+15550001111'', 1), True)],
         numbers = [''+15550001111''], numbersCompleted = 0, errors = [],
         successfulNumbers = [],
         strace = [ServerGetKeys ''+15550001111'' (Some 1)]\<rparr>)"
proof -
  let ?n = "''+15550001111''"
  let ?w = "sample_sender [((?n, 2), True)] [?n]"
  let ?w1 = "snd (getKeys_serial (sample_service [2]) ?n [3, 2, 4] [3] ?w)"
  have pre: "getKeys_serial (sample_service [2]) ?n [3, 2, 4] [3] ?w = (None, ?w1)"
    by (simp add: prod_eq_iff fetchDevice_def sample_service_def Let_def)
  have r2: "getKeys_reply (sample_service [2]) ?n (Some 2) = Inl (HTTPError 404 no_devices)"
    by (simp add: sample_service_def)
  have a: "getKeysForNumber (sample_service [2]) ?n (Some [3, 2, 4]) ?w
             = getKeys_serial (sample_service [2]) ?n [3, 2, 4] [4]
                 (removeSession ?n 2 (log_s (ServerGetKeys ?n (Some 2)) ?w1))"
    using C7_getKeysForNumber_404[of "[3, 2, 4]" "[3]" 2 "[4]" "sample_service [2]" ?n ?w ?w1
        no_devices, OF _ pre r2]
    by simp
  have a': "getKeys_serial (sample_service [2]) ?n [3, 2, 4] [4]
                 (removeSession ?n 2 (log_s (ServerGetKeys ?n (Some 2)) ?w1))
     = (None,
        \<lparr>sessions = [((?n, 3), True), ((?n, 4), True)],
         numbers = [?n], numbersCompleted = 0, errors = [], successfulNumbers = [],
         strace = [ServerGetKeys ?n (Some 3), BuilderProcessPreKey ?n 3,
                   ServerGetKeys ?n (Some 2), StoreRemoveSession ?n 2,
                   ServerGetKeys ?n (Some 4), BuilderProcessPreKey ?n 4]\<rparr>)"
    by (simp add: fetchDevice_def sample_service_def sample_sender_def Let_def log_s_def
        openSession_def removeSession_def)
  let ?v = "sample_sender [((?n, 1), True)] [?n]"
  have pre1: "getKeys_serial (sample_service [1]) ?n [1, 2] [] ?v = (None, ?v)"
    by simp
  have r1: "getKeys_reply (sample_service [1]) ?n (Some 1) = Inl (HTTPError 404 no_devices)"
    by (simp add: sample_service_def)
  have b: "getKeysForNumber (sample_service [1]) ?n (Some [1, 2]) ?v
             = (Some (UnregisteredUserError ?n (HTTPError 404 no_devices)),
                log_s (ServerGetKeys ?n (Some 1)) ?v)"
    using C7_getKeysForNumber_404[of "[1, 2]" "[]" 1 "[2]" "sample_service [1]" ?n ?v ?v
        no_devices, OF _ pre1 r1]
    by simp
  show ?thesis
    using a a' b by (simp add: sample_sender_def log_s_def)
qed

text \<open>
  Witness for C6: devices 1 and 2, device 1 reported stale, and a second 410; the third
  reply of the server is never used.
\<close>

theorem C6_stale_devices_retry_witness:
  "doSendMessage (sample_service [])
      [SendFailed (HTTPError 410 \<lparr>extraDevices = [], missingDevices = [], staleDevices = [1]\<rparr>),
       SendFailed (HTTPError 410 \<lparr>extraDevices = [], missingDevices = [], staleDevices = [1]\<rparr>),
       SendOK]
      ''+15550001111'' [1, 2] True
      (sample_sender [((''+15550001111'', 1), True), ((''+15550001111'', 2), True)] [''+15550001111''])
   = (Fulfilled, [SendOK],
      \<lparr>sessions = [((''+15550001111'', 2), True), ((''+15550001111'', 1), True)],
       numbers = [''+15550001111''], numbersCompleted = 1,
       errors = [(''+15550001111'', ''Hit retry limit attempting to reload device list'',
                  OutgoingMessageError ''+15550001111''
                    (Some (HTTPError 410 \<lparr>extraDevices = [], missingDevices = [], staleDevices = [1]\<rparr>)))],
       successfulNumbers = [],
       strace = [CipherEncrypt ''+15550001111'' 1, CipherEncrypt ''+15550001111'' 2,
                 ServerSendMessages ''+15550001111'' [1, 2],
                 CipherCloseOpenSession ''+15550001111'' 1,
                 ServerGetKeys ''+15550001111'' (Some 1),
                 BuilderProcessPreKey ''+15550001111'' 1,
                 StoreGetDeviceIds ''+15550001111'',
                 CipherEncrypt ''+15550001111'' 2, CipherEncrypt ''+15550001111'' 1,
                 ServerSendMessages ''+15550001111'' [2, 1],
                 RegisterError ''+15550001111'' ''Hit retry limit attempting to reload device list''
                   (OutgoingMessageError ''+15550001111''
                     (Some (HTTPError 410 \<lparr>extraDevices = [], missingDevices = [], staleDevices = [1]\<rparr>))),
                 Callback [] 1]\<rparr>)"
proof -
  let ?n = "''+15550001111''"
  let ?r = "\<lparr>extraDevices = [], missingDevices = [], staleDevices = [1::nat]\<rparr>"
  let ?w = "sample_sender [((?n, 1), True), ((?n, 2), True)] [?n]"
  let ?run = "doSendMessage (sample_service []) [SendFailed (HTTPError 410 ?r), SendFailed (HTTPError 410 ?r), SendOK]
      ?n [1, 2] True ?w"
  have enc: "\<forall>d. encrypt_reply (sample_service []) ?n d = None"
    by (simp add: sample_service_def)
  have keys: "\<forall>d\<in>set (staleDevices ?r). keys_available (sample_service []) ?n d"
    by (simp add: keys_available_def sample_service_def)
  have stale: "set (staleDevices ?r) \<subseteq> set [1, 2]"
    by simp
  have known: "getDeviceIds ?n ?w \<noteq> []"
    by (simp add: getDeviceIds_def sample_sender_def)
  have "\<exists>w'. ?run = (Fulfilled, [SendOK], w')
          \<and> errors w' = errors ?w @ [(?n, ''Hit retry limit attempting to reload device list'',
                                     OutgoingMessageError ?n (Some (HTTPError 410 ?r)))]
          \<and> numbersCompleted w' = numbersCompleted ?w + 1"
    using C6_stale_devices_retry[OF enc keys stale known, of 410 ?r "[SendOK]"] by auto
  then have byC6: "fst ?run = Fulfilled \<and> fst (snd ?run) = [SendOK]
          \<and> errors (snd (snd ?run)) = [(?n, ''Hit retry limit attempting to reload device list'',
                                     OutgoingMessageError ?n (Some (HTTPError 410 ?r)))]
          \<and> numbersCompleted (snd (snd ?run)) = 1"
    by (auto simp: sample_sender_def)
  have ev: "snd (snd ?run) =
      \<lparr>sessions = [((?n, 2), True), ((?n, 1), True)],
       numbers = [?n], numbersCompleted = 1,
       errors = [(?n, ''Hit retry limit attempting to reload device list'',
                  OutgoingMessageError ?n (Some (HTTPError 410 ?r)))],
       successfulNumbers = [],
       strace = [CipherEncrypt ?n 1, CipherEncrypt ?n 2,
                 ServerSendMessages ?n [1, 2],
                 CipherCloseOpenSession ?n 1,
                 ServerGetKeys ?n (Some 1),
                 BuilderProcessPreKey ?n 1,
                 StoreGetDeviceIds ?n,
                 CipherEncrypt ?n 2, CipherEncrypt ?n 1,
                 ServerSendMessages ?n [2, 1],
                 RegisterError ?n ''Hit retry limit attempting to reload device list''
                   (OutgoingMessageError ?n (Some (HTTPError 410 ?r))),
                 Callback [] 1]\<rparr>"
    by (simp add: doSendMessage.simps reloadDevicesAndSend.simps sample_service_def
        sample_sender_def Let_def log_s_def transmitMessage_error_def closeOpenSessionForDevice_def
        getKeysForNumber_def fetchDevice_def openSession_def getDeviceIds_def registerError_def
        numberCompleted_def)
  show ?thesis
    using byC6 ev by (simp add: prod_eq_iff)
qed

end
